theory Spec2Isabelle
  imports Main "HOL-Library.AList"
begin

section \<open>The built-in processor registry (builtin/processor/processor.go)\<close>

text \<open>
  The Go struct \<^verbatim>\<open>builtins\<close> holds a map from names to processors that is \<^verbatim>\<open>nil\<close>
  until the first registration. The map is a partial function, and the \<^verbatim>\<open>nil\<close> map is
  \<open>None\<close>. The lock is not modelled: every operation holds it for its whole body.
  \<^verbatim>\<open>Get\<close> returns the pair \<^verbatim>\<open>(p, ok)\<close>; the model returns \<open>Some p\<close> for \<^verbatim>\<open>(p, true)\<close> and
  \<open>None\<close> for \<^verbatim>\<open>(nil, false)\<close>.
\<close>

record 'p builtins =
  processors :: "(string \<rightharpoonup> 'p) option"

definition Register :: "'p builtins \<Rightarrow> string \<Rightarrow> 'p \<Rightarrow> 'p builtins" where
  "Register b name processor =
     (let b1 = (if processors b = None then b\<lparr>processors := Some Map.empty\<rparr> else b)
      in b1\<lparr>processors := map_option (\<lambda>m. m(name \<mapsto> processor)) (processors b1)\<rparr>)"

text \<open>Go's \<^verbatim>\<open>delete\<close> on a \<^verbatim>\<open>nil\<close> map does nothing.\<close>

definition delete_processor :: "'p builtins \<Rightarrow> string \<Rightarrow> 'p builtins" where
  "delete_processor b name =
     b\<lparr>processors := map_option (\<lambda>m. m(name := None)) (processors b)\<rparr>"

fun Unregister :: "'p builtins \<Rightarrow> string list \<Rightarrow> 'p builtins" where
  "Unregister b [] = b"
| "Unregister b (name # names) = Unregister (delete_processor b name) names"

definition Get :: "'p builtins \<Rightarrow> string \<Rightarrow> 'p option" where
  "Get b name = (case processors b of None \<Rightarrow> None | Some m \<Rightarrow> m name)"

section \<open>The rule chain context (engine/chain.go)\<close>

subsection \<open>Types of the api/types package, as chain.go uses them\<close>

text \<open>
  The declarations of \<^verbatim>\<open>api/types\<close> are read off their uses in the source. Where two Go
  structs have a field of the same name the record field is renamed: \<open>ConnType\<close> is the
  field \<^verbatim>\<open>Type\<close> of a connection, \<open>NodeDefId\<close> and \<open>NodeConfiguration\<close> are the fields
  \<^verbatim>\<open>Id\<close> and \<^verbatim>\<open>Configuration\<close> of \<^verbatim>\<open>types.RuleNode\<close>, \<open>BaseInfo\<close> is the field \<^verbatim>\<open>RuleChain\<close>
  of \<^verbatim>\<open>types.RuleChain\<close>, and \<open>ChainId\<close> is the field \<^verbatim>\<open>Id\<close> of \<^verbatim>\<open>RuleChainCtx\<close>.
\<close>

datatype ComponentKind = NODE | CHAIN

record RuleNodeId =
  Id :: string
  Type :: ComponentKind

record RuleNodeRelation =
  InId :: RuleNodeId
  OutId :: RuleNodeId
  RelationType :: string

text \<open>A Go \<^verbatim>\<open>error\<close> that is not \<^verbatim>\<open>nil\<close>; \<open>error option\<close> is an \<^verbatim>\<open>error\<close> that may be \<^verbatim>\<open>nil\<close>.\<close>

datatype error = Error string

text \<open>
  How a call can fail: by returning an error to its caller, or by a run-time panic
  (an index out of range, a \<^verbatim>\<open>nil\<close> pointer dereference).
\<close>

datatype fault = Returned error | IndexOutOfRange | NilDereference

text \<open>A value of type \<^verbatim>\<open>interface{}\<close> in a configuration: a string, or anything else.\<close>

datatype 'x "value" = StringValue string | OtherValue 'x

text \<open>
  \<^verbatim>\<open>types.Configuration\<close> is \<^verbatim>\<open>map[string]interface{}\<close>. The source ranges over it, so it
  is an association list; a lookup is \<open>map_of\<close>, and the order of a Go \<^verbatim>\<open>range\<close> over a
  map, which is unspecified, is taken to be the order of the list.
\<close>

type_synonym 'x Configuration = "(string \<times> 'x value) list"

record 'x RuleNode =
  NodeDefId :: string
  NodeConfiguration :: "'x Configuration"

record NodeConnection =
  FromId :: string
  ToId :: string
  ConnType :: string

type_synonym RuleChainConnection = NodeConnection

record 'x RuleMetadata =
  FirstNodeIndex :: int
  Nodes :: "'x RuleNode list"
  Connections :: "NodeConnection list"
  RuleChainConnections :: "RuleChainConnection list"

record 'x RuleChainBaseInfo =
  ID :: string
  DebugMode :: bool
  Configuration :: "'x Configuration option"

record 'x RuleChain =
  BaseInfo :: "'x RuleChainBaseInfo"
  Metadata :: "'x RuleMetadata"

record 'r Config =
  ComponentsRegistry :: 'r
  SecretKey :: string

text \<open>
  A value of the interface \<^verbatim>\<open>types.NodeCtx\<close>: \<^verbatim>\<open>nil\<close>, the zero node context
  \<^verbatim>\<open>&RuleNodeCtx{}\<close>, or any other node context (one built for a node, or the root chain
  context of another engine), which this file does not look into.
\<close>

datatype 'n NodeCtx = NilNodeCtx | EmptyRuleNodeCtx | NodeCtx 'n

text \<open>
  A rule engine of the pool, as far as chain.go asks: its root chain context, which may
  be \<^verbatim>\<open>nil\<close>. A pool maps chain ids to engines.
\<close>

record 'n RuleEngine =
  RootRuleChainCtx :: "'n NodeCtx"

type_synonym 'n RuleEnginePool = "string \<rightharpoonup> 'n RuleEngine"

text \<open>
  \<^verbatim>\<open>NewRuleContext(context.TODO(), config, ruleChainCtx, nil, firstNode, config.Pool, nil, nil)\<close>:
  of its arguments only the configuration and the first node vary.
\<close>

datatype ('n, 'r) RuleContext = NewRuleContext "'r Config" "'n NodeCtx"

text \<open>
  A Go slice that may be \<^verbatim>\<open>nil\<close>: \<open>None\<close> is \<^verbatim>\<open>nil\<close>, \<open>Some xs\<close> a slice that is not.
  \<^verbatim>\<open>append\<close> to \<^verbatim>\<open>nil\<close> allocates.
\<close>

type_synonym 'a slice = "'a list option"

definition append_slice :: "'a slice \<Rightarrow> 'a \<Rightarrow> 'a slice" where
  "append_slice s x = (case s of None \<Rightarrow> Some [x] | Some xs \<Rightarrow> Some (xs @ [x]))"

definition len :: "'a slice \<Rightarrow> nat" where
  "len s = (case s of None \<Rightarrow> 0 | Some xs \<Rightarrow> length xs)"

subsection \<open>The context\<close>

record RelationCache =
  inNodeId :: RuleNodeId
  relationType :: string

text \<open>
  \<^verbatim>\<open>nodes\<close> is ranged over by \<^verbatim>\<open>Destroy\<close>, so it is an association list;
  \<^verbatim>\<open>nodeRoutes\<close> and \<^verbatim>\<open>relationCache\<close> are only read and written at one key, so they are
  partial functions. \<open>vars\<close> and \<open>decryptSecrets\<close> are \<open>None\<close> while the Go maps are
  \<^verbatim>\<open>nil\<close>. The embedded lock is not modelled: the model is sequential.
\<close>

record ('n, 'x, 'a, 'r) RuleChainCtx =
  ChainId :: RuleNodeId
  SelfDefinition :: "'x RuleChain"
  config :: "'r Config"
  initialized :: bool
  componentsRegistry :: 'r
  nodeIds :: "RuleNodeId list"
  nodes :: "(RuleNodeId \<times> 'n NodeCtx) list"
  nodeRoutes :: "RuleNodeId \<rightharpoonup> RuleNodeRelation list"
  nodeCtxRoutes :: "RuleNodeId \<rightharpoonup> 'n NodeCtx list"
  relationCache :: "RelationCache \<rightharpoonup> 'n NodeCtx slice"
  rootRuleContext :: "('n, 'r) RuleContext option"
  ruleChainPool :: "'n RuleEnginePool option"
  aspects :: "'a list"
  reloadAspects :: "'a list"
  destroyAspects :: "'a list"
  vars :: "(string \<times> string) list option"
  decryptSecrets :: "(string \<times> string) list option"
  isEmpty :: bool

subsection \<open>What chain.go calls in other packages and files\<close>

text \<open>
  The functions of other packages and files are parameters of the model:
  \<^item> \<open>ToStringMapString\<close> is \<^verbatim>\<open>str.ToStringMapString\<close>, applied to a configuration entry
    that may be absent (\<open>None\<close>); its result is a Go map, given as an association list;
  \<^item> \<open>Decrypt\<close> is \<^verbatim>\<open>aes.Decrypt(value, secretKey)\<close>;
  \<^item> \<open>InitRuleNodeCtx\<close> is the node context builder; Go returns both the context and the
    error. Its second argument, the pointer to the chain context under construction, is
    left out: the builder can only keep it;
  \<^item> \<open>GetEngineAspects\<close> gives the second and third results of
    \<^verbatim>\<open>aspects.GetEngineAspects()\<close>, the reload and the destroy aspects;
  \<^item> \<open>DefaultPool\<close> is the package variable of that name.
\<close>

record ('n, 'x, 'a, 'r) externals =
  ToStringMapString :: "'x value option \<Rightarrow> (string \<times> string) list"
  Decrypt :: "string \<Rightarrow> string \<Rightarrow> error + string"
  InitRuleNodeCtx :: "'r Config \<Rightarrow> 'x RuleNode \<Rightarrow> 'n NodeCtx \<times> error option"
  GetEngineAspects :: "'a list \<Rightarrow> 'a list \<times> 'a list"
  DefaultPool :: "'n RuleEnginePool"

text \<open>
  Modelled from the spec: the constants \<^verbatim>\<open>types.Vars\<close>, \<^verbatim>\<open>types.Secrets\<close> and
  \<^verbatim>\<open>defaultNodeIdPrefix\<close> are declared in files that are not among the sources. The spec
  names the configuration entries \<^verbatim>\<open>vars\<close> and \<^verbatim>\<open>secrets\<close> and the generated ids
  \<^verbatim>\<open>node<index>\<close>.
\<close>

definition Vars :: string where
  "Vars = ''vars''"

definition Secrets :: string where
  "Secrets = ''secrets''"

definition defaultNodeIdPrefix :: string where
  "defaultNodeIdPrefix = ''node''"

text \<open>\<^verbatim>\<open>fmt.Sprintf("%d", index)\<close> for an index of a \<^verbatim>\<open>range\<close>, which is never negative.\<close>

definition digit :: "nat \<Rightarrow> char" where
  "digit d = ''0123456789'' ! d"

function Sprintf_d :: "nat \<Rightarrow> string" where
  "Sprintf_d n = (if n < 10 then [digit n] else Sprintf_d (n div 10) @ [digit (n mod 10)])"
  by pat_completeness auto
termination
  by (relation "measure id") auto

subsection \<open>Secrets\<close>

definition decryptSecret ::
  "('n, 'x, 'a, 'r) externals \<Rightarrow> (string \<times> string) list \<Rightarrow> string \<Rightarrow> (string \<times> string) list" where
  "decryptSecret ext inputMap secretKey =
     fold (\<lambda>(key, value) result.
             case Decrypt ext value secretKey of
               Inr plaintext \<Rightarrow> AList.update key plaintext result
             | Inl err \<Rightarrow> AList.update key value result)
          inputMap []"

subsection \<open>Lookups\<close>

definition GetRuleChainPool ::
  "('n, 'x, 'a, 'r) externals \<Rightarrow> ('n, 'x, 'a, 'r) RuleChainCtx \<Rightarrow> 'n RuleEnginePool" where
  "GetRuleChainPool ext rc =
     (case ruleChainPool rc of None \<Rightarrow> DefaultPool ext | Some pool \<Rightarrow> pool)"

definition SetRuleChainPool ::
  "('n, 'x, 'a, 'r) RuleChainCtx \<Rightarrow> 'n RuleEnginePool option \<Rightarrow> ('n, 'x, 'a, 'r) RuleChainCtx" where
  "SetRuleChainPool rc pool = rc\<lparr>ruleChainPool := pool\<rparr>"

text \<open>
  \<^verbatim>\<open>GetNodeById\<close> returns a node context and whether it was found. A Go map read of an
  absent key gives the zero value, here \<^verbatim>\<open>nil\<close>. The parameter \<^verbatim>\<open>id\<close> of the source is
  \<open>nodeId\<close> here.
\<close>

definition GetNodeById ::
  "('n, 'x, 'a, 'r) externals \<Rightarrow> ('n, 'x, 'a, 'r) RuleChainCtx \<Rightarrow> RuleNodeId \<Rightarrow> 'n NodeCtx \<times> bool" where
  "GetNodeById ext rc nodeId =
     (if Type nodeId = CHAIN then
        (case GetRuleChainPool ext rc (Id nodeId) of
           Some subRuleEngine \<Rightarrow>
             if RootRuleChainCtx subRuleEngine \<noteq> NilNodeCtx
             then (RootRuleChainCtx subRuleEngine, True)
             else (NilNodeCtx, False)
         | None \<Rightarrow> (NilNodeCtx, False))
      else
        (case map_of (nodes rc) nodeId of
           Some ruleNodeCtx \<Rightarrow> (ruleNodeCtx, True)
         | None \<Rightarrow> (NilNodeCtx, False)))"

text \<open>
  \<^verbatim>\<open>GetNodeByIndex\<close> compares the index with the length only from above; Go panics when a
  slice is read at a negative index.
\<close>

definition GetNodeByIndex ::
  "('n, 'x, 'a, 'r) externals \<Rightarrow> ('n, 'x, 'a, 'r) RuleChainCtx \<Rightarrow> int \<Rightarrow> fault + 'n NodeCtx \<times> bool" where
  "GetNodeByIndex ext rc index =
     (if index \<ge> int (length (nodeIds rc)) then Inr (EmptyRuleNodeCtx, False)
      else if index < 0 then Inl IndexOutOfRange
      else Inr (GetNodeById ext rc (nodeIds rc ! nat index)))"

definition GetFirstNode ::
  "('n, 'x, 'a, 'r) externals \<Rightarrow> ('n, 'x, 'a, 'r) RuleChainCtx \<Rightarrow> fault + 'n NodeCtx \<times> bool" where
  "GetFirstNode ext rc =
     (let firstNodeIndex = FirstNodeIndex (Metadata (SelfDefinition rc))
      in GetNodeByIndex ext rc firstNodeIndex)"

text \<open>\<^verbatim>\<open>GetNodeRoutes\<close> returns \<^verbatim>\<open>(relations, ok)\<close>; \<open>None\<close> is \<^verbatim>\<open>(nil, false)\<close>.\<close>

definition GetNodeRoutes ::
  "('n, 'x, 'a, 'r) RuleChainCtx \<Rightarrow> RuleNodeId \<Rightarrow> RuleNodeRelation list option" where
  "GetNodeRoutes rc nodeId = nodeRoutes rc nodeId"

subsection \<open>Successor resolution\<close>

text \<open>
  The loop of \<^verbatim>\<open>GetNextNodes\<close> over the relations of the source node, with the two
  variables it assigns, \<^verbatim>\<open>nodeCtxList\<close> and \<^verbatim>\<open>hasNextComponents\<close>.
\<close>

fun nextNodesLoop ::
  "('n, 'x, 'a, 'r) externals \<Rightarrow> ('n, 'x, 'a, 'r) RuleChainCtx \<Rightarrow> string \<Rightarrow>
   RuleNodeRelation list \<Rightarrow> 'n NodeCtx slice \<times> bool \<Rightarrow> 'n NodeCtx slice \<times> bool" where
  "nextNodesLoop ext rc relType [] acc = acc"
| "nextNodesLoop ext rc relType (item # relations) (nodeCtxList, hasNextComponents) =
     (if RelationType item = relType then
        (case GetNodeById ext rc (OutId item) of
           (nodeCtx, True) \<Rightarrow>
             nextNodesLoop ext rc relType relations (append_slice nodeCtxList nodeCtx, True)
         | (nodeCtx, False) \<Rightarrow>
             nextNodesLoop ext rc relType relations (nodeCtxList, hasNextComponents))
      else nextNodesLoop ext rc relType relations (nodeCtxList, hasNextComponents))"

text \<open>
  \<^verbatim>\<open>GetNextNodes\<close> returns the successor list, the flag, and the context, whose cache it
  writes on a miss. \<^verbatim>\<open>nodeCtxList\<close> is declared without a value, so it is \<^verbatim>\<open>nil\<close> until the
  first \<^verbatim>\<open>append\<close>. The parameter \<^verbatim>\<open>relationType\<close> of the source is \<open>relType\<close> here.
\<close>

definition GetNextNodes ::
  "('n, 'x, 'a, 'r) externals \<Rightarrow> ('n, 'x, 'a, 'r) RuleChainCtx \<Rightarrow> RuleNodeId \<Rightarrow> string \<Rightarrow>
   ('n NodeCtx slice \<times> bool) \<times> ('n, 'x, 'a, 'r) RuleChainCtx" where
  "GetNextNodes ext rc nodeId relType =
     (let cacheKey = \<lparr>inNodeId = nodeId, relationType = relType\<rparr>
      in case relationCache rc cacheKey of
           Some nodeCtxList \<Rightarrow> ((nodeCtxList, nodeCtxList \<noteq> None), rc)
         | None \<Rightarrow>
             (let (nodeCtxList, hasNextComponents) =
                    (case GetNodeRoutes rc nodeId of
                       Some relations \<Rightarrow> nextNodesLoop ext rc relType relations (None, False)
                     | None \<Rightarrow> (None, False))
              in ((nodeCtxList, hasNextComponents),
                  rc\<lparr>relationCache := (relationCache rc)(cacheKey \<mapsto> nodeCtxList)\<rparr>)))"

subsection \<open>Building a context\<close>

text \<open>
  The first loop of \<^verbatim>\<open>InitRuleChainCtx\<close>, over the node definitions with their index;
  \<open>loadNode\<close> is its body. The elements of \<^verbatim>\<open>Nodes\<close> are pointers, so the assignment of a generated id is seen
  through \<^verbatim>\<open>SelfDefinition\<close> as well. A builder error ends the build.
\<close>

definition loadNode ::
  "('n, 'x, 'a, 'r) externals \<Rightarrow> 'r Config \<Rightarrow> nat \<Rightarrow> 'x RuleNode \<Rightarrow>
   ('n, 'x, 'a, 'r) RuleChainCtx \<Rightarrow> fault + ('n, 'x, 'a, 'r) RuleChainCtx" where
  "loadNode ext cfg index item rc =
     (let item1 = (if NodeDefId item = [] then item\<lparr>NodeDefId := defaultNodeIdPrefix @ Sprintf_d index\<rparr>
                   else item);
          def = SelfDefinition rc;
          rc1 = rc\<lparr>SelfDefinition :=
                  def\<lparr>Metadata := (Metadata def)\<lparr>Nodes := (Nodes (Metadata def))[index := item1]\<rparr>\<rparr>\<rparr>;
          ruleNodeId = \<lparr>Id = NodeDefId item1, Type = NODE\<rparr>;
          rc2 = rc1\<lparr>nodeIds := (nodeIds rc1)[index := ruleNodeId]\<rparr>
      in case InitRuleNodeCtx ext cfg item1 of
           (ruleNodeCtx, Some err) \<Rightarrow> Inl (Returned err)
         | (ruleNodeCtx, None) \<Rightarrow>
             Inr (rc2\<lparr>nodes := AList.update ruleNodeId ruleNodeCtx (nodes rc2)\<rparr>))"

fun loadNodes ::
  "('n, 'x, 'a, 'r) externals \<Rightarrow> 'r Config \<Rightarrow> nat \<Rightarrow> 'x RuleNode list \<Rightarrow>
   ('n, 'x, 'a, 'r) RuleChainCtx \<Rightarrow> fault + ('n, 'x, 'a, 'r) RuleChainCtx" where
  "loadNodes ext cfg index [] rc = Inr rc"
| "loadNodes ext cfg index (item # items) rc =
     (case loadNode ext cfg index item rc of
        Inl err \<Rightarrow> Inl err
      | Inr rc1 \<Rightarrow> loadNodes ext cfg (Suc index) items rc1)"

text \<open>
  The second and the third loop differ only in the kind of the target id: \<open>NODE\<close> for
  \<^verbatim>\<open>Connections\<close>, \<open>CHAIN\<close> for \<^verbatim>\<open>RuleChainConnections\<close>.
\<close>

definition addRelation ::
  "ComponentKind \<Rightarrow> NodeConnection \<Rightarrow> ('n, 'x, 'a, 'r) RuleChainCtx \<Rightarrow> ('n, 'x, 'a, 'r) RuleChainCtx" where
  "addRelation kind item rc =
     (let inNodeId = \<lparr>Id = FromId item, Type = NODE\<rparr>;
          outNodeId = \<lparr>Id = ToId item, Type = kind\<rparr>;
          ruleNodeRelation = \<lparr>InId = inNodeId, OutId = outNodeId, RelationType = ConnType item\<rparr>;
          nodeRelations = (case nodeRoutes rc inNodeId of
                             Some nodeRelations \<Rightarrow> nodeRelations @ [ruleNodeRelation]
                           | None \<Rightarrow> [ruleNodeRelation])
      in rc\<lparr>nodeRoutes := (nodeRoutes rc)(inNodeId \<mapsto> nodeRelations)\<rparr>)"

fun loadRelations ::
  "ComponentKind \<Rightarrow> NodeConnection list \<Rightarrow> ('n, 'x, 'a, 'r) RuleChainCtx \<Rightarrow> ('n, 'x, 'a, 'r) RuleChainCtx" where
  "loadRelations kind [] rc = rc"
| "loadRelations kind (item # items) rc = loadRelations kind items (addRelation kind item rc)"

text \<open>The node definition \<^verbatim>\<open>&types.RuleNode{}\<close> of the synthesized node.\<close>

definition emptyRuleNode :: "'x RuleNode" where
  "emptyRuleNode = \<lparr>NodeDefId = [], NodeConfiguration = []\<rparr>"

text \<open>
  The context \<^verbatim>\<open>InitRuleChainCtx\<close> starts from: the fields of the struct literal, every
  other field at its zero value (the zero \<^verbatim>\<open>ComponentKind\<close> is the first constant).
\<close>

definition newRuleChainCtx ::
  "'r Config \<Rightarrow> 'a list \<Rightarrow> 'x RuleChain \<Rightarrow> ('n, 'x, 'a, 'r) RuleChainCtx" where
  "newRuleChainCtx cfg aspectList ruleChainDef =
     \<lparr>ChainId = \<lparr>Id = [], Type = NODE\<rparr>,
      SelfDefinition = ruleChainDef,
      config = cfg,
      initialized = True,
      componentsRegistry = ComponentsRegistry cfg,
      nodeIds = [],
      nodes = [],
      nodeRoutes = Map.empty,
      nodeCtxRoutes = Map.empty,
      relationCache = Map.empty,
      rootRuleContext = None,
      ruleChainPool = None,
      aspects = aspectList,
      reloadAspects = [],
      destroyAspects = [],
      vars = None,
      decryptSecrets = None,
      isEmpty = False\<rparr>"

text \<open>
  The steps of \<^verbatim>\<open>InitRuleChainCtx\<close> before and after the loops. A \<^verbatim>\<open>nil\<close> definition
  panics at the first read of \<^verbatim>\<open>ruleChainDef.RuleChain.ID\<close>, so the later test
  \<^verbatim>\<open>ruleChainDef != nil\<close> is always true when it is reached.
\<close>

definition loadVarsAndSecrets ::
  "('n, 'x, 'a, 'r) externals \<Rightarrow> 'r Config \<Rightarrow> 'x RuleChain \<Rightarrow>
   ('n, 'x, 'a, 'r) RuleChainCtx \<Rightarrow> ('n, 'x, 'a, 'r) RuleChainCtx" where
  "loadVarsAndSecrets ext cfg ruleChainDef rc =
     (case Configuration (BaseInfo ruleChainDef) of
        None \<Rightarrow> rc
      | Some configuration \<Rightarrow>
          (let varsConfig = map_of configuration Vars;
               envConfig = map_of configuration Secrets;
               secrets = ToStringMapString ext envConfig
           in rc\<lparr>vars := Some (ToStringMapString ext varsConfig),
                 decryptSecrets := Some (decryptSecret ext secrets (SecretKey cfg))\<rparr>))"

definition initRootRuleContext ::
  "('n, 'x, 'a, 'r) externals \<Rightarrow> 'r Config \<Rightarrow>
   ('n, 'x, 'a, 'r) RuleChainCtx \<Rightarrow> fault + ('n, 'x, 'a, 'r) RuleChainCtx" where
  "initRootRuleContext ext cfg rc =
     (case GetFirstNode ext rc of
        Inl panic \<Rightarrow> Inl panic
      | Inr (firstNode, True) \<Rightarrow>
          Inr (rc\<lparr>rootRuleContext := Some (NewRuleContext (config rc) firstNode)\<rparr>)
      | Inr (firstNode, False) \<Rightarrow>
          (let ruleNodeCtx = fst (InitRuleNodeCtx ext cfg emptyRuleNode)
           in Inr (rc\<lparr>rootRuleContext := Some (NewRuleContext (config rc) ruleNodeCtx),
                      isEmpty := True\<rparr>)))"

definition InitRuleChainCtx ::
  "('n, 'x, 'a, 'r) externals \<Rightarrow> 'r Config \<Rightarrow> 'a list \<Rightarrow> 'x RuleChain option \<Rightarrow>
   fault + ('n, 'x, 'a, 'r) RuleChainCtx" where
  "InitRuleChainCtx ext cfg aspectList ruleChainDefPtr =
     (case ruleChainDefPtr of
        None \<Rightarrow> Inl NilDereference
      | Some ruleChainDef \<Rightarrow>
          (let rc0 = newRuleChainCtx cfg aspectList ruleChainDef;
               rc1 = (if ID (BaseInfo ruleChainDef) \<noteq> []
                      then rc0\<lparr>ChainId := \<lparr>Id = ID (BaseInfo ruleChainDef), Type = CHAIN\<rparr>\<rparr>
                      else rc0);
               rc2 = loadVarsAndSecrets ext cfg ruleChainDef rc1;
               nodeLen = length (Nodes (Metadata ruleChainDef));
               rc3 = rc2\<lparr>nodeIds := replicate nodeLen \<lparr>Id = [], Type = NODE\<rparr>\<rparr>
           in case loadNodes ext cfg 0 (Nodes (Metadata ruleChainDef)) rc3 of
                Inl err \<Rightarrow> Inl err
              | Inr rc4 \<Rightarrow>
                  (let rc5 = loadRelations NODE (Connections (Metadata ruleChainDef)) rc4;
                       rc6 = loadRelations CHAIN (RuleChainConnections (Metadata ruleChainDef)) rc5
                   in case initRootRuleContext ext cfg rc6 of
                        Inl panic \<Rightarrow> Inl panic
                      | Inr rc7 \<Rightarrow>
                          (let (reloadAspectList, destroyAspectList) = GetEngineAspects ext aspectList
                           in Inr (rc7\<lparr>reloadAspects := reloadAspectList,
                                       destroyAspects := destroyAspectList\<rparr>)))))"

definition SetAspects ::
  "('n, 'x, 'a, 'r) externals \<Rightarrow> ('n, 'x, 'a, 'r) RuleChainCtx \<Rightarrow> 'a list \<Rightarrow> ('n, 'x, 'a, 'r) RuleChainCtx" where
  "SetAspects ext rc aspectList =
     (let (reloadAspectList, destroyAspectList) = GetEngineAspects ext aspectList
      in rc\<lparr>aspects := aspectList, reloadAspects := reloadAspectList,
            destroyAspects := destroyAspectList\<rparr>)"

subsection \<open>Destroy, Copy and ReloadSelf\<close>

text \<open>
  What a context calls on others is recorded as a list of events, in the order of the
  calls: \<^verbatim>\<open>Destroy\<close> of a node context, \<^verbatim>\<open>OnDestroy(rc)\<close> of a destroy aspect, and
  \<^verbatim>\<open>OnReload(rc, rc, err)\<close> of a reload aspect with its three arguments.
\<close>

datatype ('n, 'a, 'c) event =
  NodeDestroy "'n NodeCtx"
| OnDestroy 'a 'c
| OnReload 'a 'c 'c "error option"

definition Destroy ::
  "('n, 'x, 'a, 'r) RuleChainCtx \<Rightarrow> ('n, 'a, ('n, 'x, 'a, 'r) RuleChainCtx) event list" where
  "Destroy rc =
     map (\<lambda>(k, v). NodeDestroy v) (nodes rc) @ map (\<lambda>aop. OnDestroy aop rc) (destroyAspects rc)"

definition Copy ::
  "('n, 'x, 'a, 'r) RuleChainCtx \<Rightarrow> ('n, 'x, 'a, 'r) RuleChainCtx \<Rightarrow> ('n, 'x, 'a, 'r) RuleChainCtx" where
  "Copy rc newCtx =
     rc\<lparr>ChainId := ChainId newCtx,
        config := config newCtx,
        initialized := initialized newCtx,
        componentsRegistry := componentsRegistry newCtx,
        SelfDefinition := SelfDefinition newCtx,
        nodeIds := nodeIds newCtx,
        nodes := nodes newCtx,
        nodeRoutes := nodeRoutes newCtx,
        rootRuleContext := rootRuleContext newCtx,
        ruleChainPool := ruleChainPool newCtx,
        aspects := aspects newCtx,
        reloadAspects := reloadAspects newCtx,
        destroyAspects := destroyAspects newCtx,
        vars := vars newCtx,
        decryptSecrets := decryptSecrets newCtx,
        relationCache := Map.empty\<rparr>"

text \<open>
  The loop of \<^verbatim>\<open>ReloadSelf\<close> over the reload aspects. \<open>onReload\<close> is what an aspect
  answers; the aspects are taken to leave the context as it is. The loop returns the
  first error an aspect answers, and the outer \<^verbatim>\<open>err\<close> when none does.
\<close>

fun reloadLoop ::
  "('a \<Rightarrow> ('n, 'x, 'a, 'r) RuleChainCtx \<Rightarrow> ('n, 'x, 'a, 'r) RuleChainCtx \<Rightarrow> error option \<Rightarrow> error option) \<Rightarrow>
   ('n, 'x, 'a, 'r) RuleChainCtx \<Rightarrow> error option \<Rightarrow> 'a list \<Rightarrow>
   error option \<times> ('n, 'a, ('n, 'x, 'a, 'r) RuleChainCtx) event list" where
  "reloadLoop onReload rc err [] = (err, [])"
| "reloadLoop onReload rc err (aop # aops) =
     (case onReload aop rc rc err of
        Some hookErr \<Rightarrow> (Some hookErr, [OnReload aop rc rc err])
      | None \<Rightarrow>
          (let (res, evs) = reloadLoop onReload rc err aops
           in (res, OnReload aop rc rc err # evs)))"

text \<open>
  \<^verbatim>\<open>ReloadSelf\<close> returns the error, the context afterwards and the events.
  \<open>DecodeRuleChain\<close> is \<^verbatim>\<open>rc.config.Parser.DecodeRuleChain\<close>, whose result the source casts
  to a chain context.
\<close>

definition ReloadSelf ::
  "('r Config \<Rightarrow> 'a list \<Rightarrow> string \<Rightarrow> error + ('n, 'x, 'a, 'r) RuleChainCtx) \<Rightarrow>
   ('a \<Rightarrow> ('n, 'x, 'a, 'r) RuleChainCtx \<Rightarrow> ('n, 'x, 'a, 'r) RuleChainCtx \<Rightarrow> error option \<Rightarrow> error option) \<Rightarrow>
   ('n, 'x, 'a, 'r) RuleChainCtx \<Rightarrow> string \<Rightarrow>
   error option \<times> ('n, 'x, 'a, 'r) RuleChainCtx \<times> ('n, 'a, ('n, 'x, 'a, 'r) RuleChainCtx) event list" where
  "ReloadSelf DecodeRuleChain onReload rc def =
     (case DecodeRuleChain (config rc) (aspects rc) def of
        Inr ctx \<Rightarrow>
          (let evs = Destroy rc;
               rc1 = Copy rc ctx;
               (res, evs1) = reloadLoop onReload rc1 None (reloadAspects rc1)
           in (res, rc1, evs @ evs1))
      | Inl err \<Rightarrow>
          (let (res, evs1) = reloadLoop onReload rc (Some err) (reloadAspects rc)
           in (res, rc, evs1)))"

section \<open>Variables of a rule chain (dsl, ParseVars)\<close>

text \<open>
  \<^verbatim>\<open>strings.Contains\<close> on byte strings.
\<close>

fun hasPrefix :: "string \<Rightarrow> string \<Rightarrow> bool" where
  "hasPrefix s [] = True"
| "hasPrefix [] (c # cs) = False"
| "hasPrefix (x # xs) (c # cs) = (x = c \<and> hasPrefix xs cs)"

fun Contains :: "string \<Rightarrow> string \<Rightarrow> bool" where
  "Contains [] substr = (substr = [])"
| "Contains (x # xs) substr = (hasPrefix (x # xs) substr \<or> Contains xs substr)"

text \<open>
  The parsers \<^verbatim>\<open>str.ParseVars\<close> and \<^verbatim>\<open>str.ParseVarsWithBraces\<close> are not among the sources, and
  \<^verbatim>\<open>strings.ToLower\<close> follows Unicode; the three are parameters.
\<close>

record strFuns =
  strParseVars :: "string \<Rightarrow> string list"
  strParseVarsWithBraces :: "string \<Rightarrow> string list"
  stringsToLower :: "string \<Rightarrow> string"

text \<open>The variables of one configuration field; a value that is not a string has none.\<close>

definition fieldVars :: "strFuns \<Rightarrow> string \<Rightarrow> 'x value \<Rightarrow> string list" where
  "fieldVars sf fieldName fieldValue =
     (case fieldValue of
        StringValue strV \<Rightarrow>
          if Contains (stringsToLower sf fieldName) ''script''
          then strParseVars sf strV
          else strParseVarsWithBraces sf strV
      | OtherValue other \<Rightarrow> [])"

text \<open>
  \<^verbatim>\<open>mergeVars\<close> is a Go map used as a set: an association list with values of type
  \<open>unit\<close>. The result is built by ranging over it; a \<^verbatim>\<open>nil\<close> result is the empty list.
\<close>

definition mergeField ::
  "strFuns \<Rightarrow> string \<times> 'x value \<Rightarrow> (string \<times> unit) list \<Rightarrow> (string \<times> unit) list" where
  "mergeField sf field mergeVars =
     fold (\<lambda>v m. AList.update v () m) (fieldVars sf (fst field) (snd field)) mergeVars"

definition mergeNode ::
  "strFuns \<Rightarrow> 'x RuleNode \<Rightarrow> (string \<times> unit) list \<Rightarrow> (string \<times> unit) list" where
  "mergeNode sf node mergeVars = fold (mergeField sf) (NodeConfiguration node) mergeVars"

definition ParseVars :: "strFuns \<Rightarrow> 'x RuleChain \<Rightarrow> string list" where
  "ParseVars sf def =
     (let mergeVars = fold (mergeNode sf) (Nodes (Metadata def)) []
      in map fst mergeVars)"

section \<open>The claims' vocabulary\<close>

text \<open>
  The definitions of this section are not translations of the source: they say in HOL
  what the specification says in words, and the theorems compare them with the source's
  functions.
\<close>

text \<open>A list as the slice the source builds by appending to \<^verbatim>\<open>nil\<close>: empty is \<^verbatim>\<open>nil\<close>.\<close>

definition toSlice :: "'a list \<Rightarrow> 'a slice" where
  "toSlice xs = (if xs = [] then None else Some xs)"

text \<open>
  A target that cannot be resolved: a \<open>NODE\<close> id that is not a key of \<^verbatim>\<open>nodes\<close>, or a
  \<open>CHAIN\<close> id that the pool does not hold or whose engine has a \<^verbatim>\<open>nil\<close> root chain context.
\<close>

definition unresolvable ::
  "('n, 'x, 'a, 'r) externals \<Rightarrow> ('n, 'x, 'a, 'r) RuleChainCtx \<Rightarrow> RuleNodeId \<Rightarrow> bool" where
  "unresolvable ext rc t =
     (case Type t of
        NODE \<Rightarrow> map_of (nodes rc) t = None
      | CHAIN \<Rightarrow>
          (case GetRuleChainPool ext rc (Id t) of
             None \<Rightarrow> True
           | Some engine \<Rightarrow> RootRuleChainCtx engine = NilNodeCtx))"

text \<open>
  The successors for a label among some relations: the node contexts of the targets of
  the relations with that label that can be resolved, in the order of the relations.
\<close>

definition successors ::
  "('n, 'x, 'a, 'r) externals \<Rightarrow> ('n, 'x, 'a, 'r) RuleChainCtx \<Rightarrow> string \<Rightarrow>
   RuleNodeRelation list \<Rightarrow> 'n NodeCtx list" where
  "successors ext rc label relations =
     map (\<lambda>r. fst (GetNodeById ext rc (OutId r)))
       (filter (\<lambda>r. RelationType r = label \<and> \<not> unresolvable ext rc (OutId r)) relations)"

text \<open>
  The relation a connection of the definition stands for, and the relations of a
  definition that leave a node, in definition order: the node-to-node connections, then
  the node-to-sub-chain connections.
\<close>

definition relationOf :: "ComponentKind \<Rightarrow> NodeConnection \<Rightarrow> RuleNodeRelation" where
  "relationOf kind c =
     \<lparr>InId = \<lparr>Id = FromId c, Type = NODE\<rparr>, OutId = \<lparr>Id = ToId c, Type = kind\<rparr>,
      RelationType = ConnType c\<rparr>"

definition definedRelations :: "'x RuleChain \<Rightarrow> RuleNodeId \<Rightarrow> RuleNodeRelation list" where
  "definedRelations def f =
     filter (\<lambda>r. InId r = f)
       (map (relationOf NODE) (Connections (Metadata def)) @
        map (relationOf CHAIN) (RuleChainConnections (Metadata def)))"

text \<open>The routes after some relations were appended, each to the list of its source.\<close>

definition extendRoutes ::
  "(RuleNodeId \<rightharpoonup> RuleNodeRelation list) \<Rightarrow> RuleNodeRelation list \<Rightarrow>
   (RuleNodeId \<rightharpoonup> RuleNodeRelation list)" where
  "extendRoutes m rels =
     (\<lambda>k. if filter (\<lambda>r. InId r = k) rels = [] then m k
          else Some ((case m k of None \<Rightarrow> [] | Some rs \<Rightarrow> rs) @ filter (\<lambda>r. InId r = k) rels))"

text \<open>The context of \<^verbatim>\<open>InitRuleChainCtx\<close> when it reaches its first loop.\<close>

definition initialCtx ::
  "('n, 'x, 'a, 'r) externals \<Rightarrow> 'r Config \<Rightarrow> 'a list \<Rightarrow> 'x RuleChain \<Rightarrow> ('n, 'x, 'a, 'r) RuleChainCtx" where
  "initialCtx ext cfg aspectList ruleChainDef =
     (let rc0 = newRuleChainCtx cfg aspectList ruleChainDef;
          rc1 = (if ID (BaseInfo ruleChainDef) \<noteq> []
                 then rc0\<lparr>ChainId := \<lparr>Id = ID (BaseInfo ruleChainDef), Type = CHAIN\<rparr>\<rparr>
                 else rc0);
          rc2 = loadVarsAndSecrets ext cfg ruleChainDef rc1
      in rc2\<lparr>nodeIds := replicate (length (Nodes (Metadata ruleChainDef))) \<lparr>Id = [], Type = NODE\<rparr>\<rparr>)"

text \<open>
  Calls on a context between two lookups that are not a reload: further lookups of
  successors, and \<^verbatim>\<open>SetRuleChainPool\<close>.
\<close>

datatype 'n chainCall =
  CallGetNextNodes RuleNodeId string
| CallSetRuleChainPool "'n RuleEnginePool option"

fun runCalls ::
  "('n, 'x, 'a, 'r) externals \<Rightarrow> ('n, 'x, 'a, 'r) RuleChainCtx \<Rightarrow> 'n chainCall list \<Rightarrow>
   ('n, 'x, 'a, 'r) RuleChainCtx" where
  "runCalls ext rc [] = rc"
| "runCalls ext rc (CallGetNextNodes f l # calls) = runCalls ext (snd (GetNextNodes ext rc f l)) calls"
| "runCalls ext rc (CallSetRuleChainPool pool # calls) = runCalls ext (SetRuleChainPool rc pool) calls"

text \<open>No cached list is an empty slice that is not \<^verbatim>\<open>nil\<close>.\<close>

definition cacheSound :: "('n, 'x, 'a, 'r) RuleChainCtx \<Rightarrow> bool" where
  "cacheSound rc = (\<forall>k. relationCache rc k \<noteq> Some (Some []))"

text \<open>
  Every cached list is what a resolution in the present context gives for its key.
\<close>

definition cacheConsistent ::
  "('n, 'x, 'a, 'r) externals \<Rightarrow> ('n, 'x, 'a, 'r) RuleChainCtx \<Rightarrow> bool" where
  "cacheConsistent ext rc =
     (\<forall>k v. relationCache rc k = Some v \<longrightarrow>
        v = toSlice (successors ext rc (relationType k)
                       (case nodeRoutes rc (inNodeId k) of None \<Rightarrow> [] | Some rs \<Rightarrow> rs)))"

section \<open>Example inputs\<close>

text \<open>
  Concrete collaborators and chains, on which the theorems are instantiated. The demo
  builder answers a node context named after the node's id; the demo cipher decrypts a
  value that starts with the key by dropping the key, and fails on any other; an aspect
  is a number, a reload aspect when below ten and a destroy aspect otherwise.
\<close>

definition demoExternals :: "(string, (string \<times> string) list, nat, unit) externals" where
  "demoExternals =
     \<lparr>ToStringMapString = (\<lambda>v. case v of Some (OtherValue m) \<Rightarrow> m | _ \<Rightarrow> []),
      Decrypt = (\<lambda>v k. if hasPrefix v k then Inr (drop (length k) v) else Inl (Error ''cipher'')),
      InitRuleNodeCtx = (\<lambda>cfg n. (NodeCtx (NodeDefId n), None)),
      GetEngineAspects = (\<lambda>as. (filter (\<lambda>a. a < 10) as, filter (\<lambda>a. 10 \<le> a) as)),
      DefaultPool = Map.empty\<rparr>"

definition demoConfig :: "unit Config" where
  "demoConfig = \<lparr>ComponentsRegistry = (), SecretKey = ''k:''\<rparr>"

definition demoChain ::
  "int \<Rightarrow> string list \<Rightarrow> NodeConnection list \<Rightarrow> NodeConnection list \<Rightarrow> (string \<times> string) list RuleChain" where
  "demoChain i ns cs ccs =
     \<lparr>BaseInfo = \<lparr>ID = ''c'', DebugMode = False,
                  Configuration = Some [(''secrets'', OtherValue [(''p'', ''k:pw''), (''q'', ''raw'')])]\<rparr>,
      Metadata = \<lparr>FirstNodeIndex = i,
                  Nodes = map (\<lambda>n. \<lparr>NodeDefId = n, NodeConfiguration = []\<rparr>) ns,
                  Connections = cs, RuleChainConnections = ccs\<rparr>\<rparr>"

definition branchingDef :: "(string \<times> string) list RuleChain" where
  "branchingDef =
     demoChain 0 [''a'', ''b'']
       [\<lparr>FromId = ''a'', ToId = ''b'', ConnType = ''Success''\<rparr>,
        \<lparr>FromId = ''a'', ToId = ''zz'', ConnType = ''Success''\<rparr>,
        \<lparr>FromId = ''a'', ToId = ''a'', ConnType = ''Failure''\<rparr>,
        \<lparr>FromId = ''a'', ToId = ''b'', ConnType = ''Success''\<rparr>]
       [\<lparr>FromId = ''a'', ToId = ''sub1'', ConnType = ''Success''\<rparr>,
        \<lparr>FromId = ''a'', ToId = ''sub2'', ConnType = ''Success''\<rparr>,
        \<lparr>FromId = ''a'', ToId = ''sub3'', ConnType = ''Success''\<rparr>]"

definition emptyDef :: "(string \<times> string) list RuleChain" where
  "emptyDef = demoChain 0 [] [] []"

definition demoPool :: "string RuleEnginePool" where
  "demoPool = [''sub1'' \<mapsto> \<lparr>RootRuleChainCtx = NodeCtx ''root of sub1''\<rparr>,
               ''sub2'' \<mapsto> \<lparr>RootRuleChainCtx = NilNodeCtx\<rparr>]"

definition branchingCtx :: "(string, (string \<times> string) list, nat, unit) RuleChainCtx" where
  "branchingCtx = projr (InitRuleChainCtx demoExternals demoConfig [1, 12, 3] (Some branchingDef))"

definition emptyCtx :: "(string, (string \<times> string) list, nat, unit) RuleChainCtx" where
  "emptyCtx = projr (InitRuleChainCtx demoExternals demoConfig [1, 12, 3] (Some emptyDef))"

definition danglingCtx :: "(string, (string \<times> string) list, nat, unit) RuleChainCtx" where
  "danglingCtx = SetRuleChainPool branchingCtx (Some demoPool)"

text \<open>
  For \<^verbatim>\<open>ParseVars\<close>: lower case on ASCII letters, a parser that reads \<^verbatim>\<open>vars.x\<close> and one that
  reads \<^verbatim>\<open>${vars.x}\<close>, each at the start of the string only, and a chain whose nodes have
  script fields and other fields.
\<close>

definition asciiToLower :: "string \<Rightarrow> string" where
  "asciiToLower s =
     map (\<lambda>c. case map_of (zip ''ABCDEFGHIJKLMNOPQRSTUVWXYZ'' ''abcdefghijklmnopqrstuvwxyz'') c of
               Some l \<Rightarrow> l
             | None \<Rightarrow> c) s"

definition demoStrFuns :: strFuns where
  "demoStrFuns =
     \<lparr>strParseVars = (\<lambda>s. if hasPrefix s ''vars.'' then [drop 5 s] else []),
      strParseVarsWithBraces = (\<lambda>s. if hasPrefix s ''${vars.'' then [butlast (drop 7 s)] else []),
      stringsToLower = asciiToLower\<rparr>"

definition scriptedDef :: "nat RuleChain" where
  "scriptedDef =
     \<lparr>BaseInfo = \<lparr>ID = ''c'', DebugMode = False, Configuration = None\<rparr>,
      Metadata = \<lparr>FirstNodeIndex = 0,
                  Nodes = [\<lparr>NodeDefId = ''a'',
                             NodeConfiguration = [(''jsScript'', StringValue ''vars.x''),
                                                  (''url'', StringValue ''${vars.y}''),
                                                  (''port'', OtherValue 80)]\<rparr>,
                           \<lparr>NodeDefId = ''b'',
                             NodeConfiguration = [(''SCRIPT'', StringValue ''vars.y''),
                                                  (''topic'', StringValue ''vars.z''),
                                                  (''script2'', StringValue ''${vars.w}'')]\<rparr>],
                  Connections = [], RuleChainConnections = []\<rparr>\<rparr>"

text \<open>A context on which the pool was set and successors were looked up before.\<close>

definition earlierLookups :: "(RuleNodeId \<times> string) list" where
  "earlierLookups = [(\<lparr>Id = ''a'', Type = NODE\<rparr>, ''Failure''), (\<lparr>Id = ''a'', Type = NODE\<rparr>, ''Success'')]"

definition warmCtx :: "(string, (string \<times> string) list, nat, unit) RuleChainCtx" where
  "warmCtx = runCalls demoExternals (SetRuleChainPool branchingCtx (Some demoPool))
               (map (\<lambda>(f, l). CallGetNextNodes f l) earlierLookups)"

text \<open>Calls between two lookups: a pool is set, and the successors for another label are asked.\<close>

definition laterCalls :: "string chainCall list" where
  "laterCalls =
     [CallSetRuleChainPool (Some demoPool), CallGetNextNodes \<lparr>Id = ''a'', Type = NODE\<rparr> ''Failure'']"

text \<open>
  For \<^verbatim>\<open>ReloadSelf\<close>: the reload aspect \<open>3\<close> answers an error when it is told of one, and
  the parser accepts the bytes \<^verbatim>\<open>empty\<close> only, for which it gives the context of the chain
  without nodes.
\<close>

definition demoOnReload ::
  "nat \<Rightarrow> (string, (string \<times> string) list, nat, unit) RuleChainCtx \<Rightarrow>
   (string, (string \<times> string) list, nat, unit) RuleChainCtx \<Rightarrow> error option \<Rightarrow> error option" where
  "demoOnReload aop parent self err = (if aop = 3 \<and> err \<noteq> None then Some (Error ''hook 3'') else None)"

definition demoDecode ::
  "unit Config \<Rightarrow> nat list \<Rightarrow> string \<Rightarrow> error + (string, (string \<times> string) list, nat, unit) RuleChainCtx" where
  "demoDecode cfg aspectList bytes =
     (if bytes = ''empty'' then Inr emptyCtx else Inl (Error ''decode''))"

section \<open>Lemmas\<close>

subsection \<open>Successor resolution and the routes of a built context\<close>

lemma GetNodeById_found: "snd (GetNodeById ext rc t) = (\<not> unresolvable ext rc t)"
  by (cases "Type t") (auto simp: GetNodeById_def unresolvable_def split: option.splits)

lemma nextNodesLoop_eq:
  "nextNodesLoop ext rc l rels (acc, has) =
     (if successors ext rc l rels = [] then (acc, has)
      else (Some ((case acc of None \<Rightarrow> [] | Some ys \<Rightarrow> ys) @ successors ext rc l rels), True))"
proof (induction rels arbitrary: acc has)
  case Nil
  then show ?case by (simp add: successors_def)
next
  case (Cons r rels)
  obtain n b where g: "GetNodeById ext rc (OutId r) = (n, b)" by (cases "GetNodeById ext rc (OutId r)")
  have b: "b = (\<not> unresolvable ext rc (OutId r))"
    using GetNodeById_found [of ext rc "OutId r"] g by simp
  show ?case
  proof (cases "RelationType r = l \<and> b")
    case True
    then have s: "successors ext rc l (r # rels) = n # successors ext rc l rels"
      using g b by (simp add: successors_def)
    show ?thesis using True g s Cons.IH [of "append_slice acc n" True]
      by (cases acc) (simp_all add: append_slice_def)
  next
    case False
    then have s: "successors ext rc l (r # rels) = successors ext rc l rels"
      using g b by (auto simp: successors_def)
    show ?thesis using False g s Cons.IH [of acc has]
      by (cases b) auto
  qed
qed

lemma nextNodesLoop_start:
  "nextNodesLoop ext rc l rels (None, False) =
     (toSlice (successors ext rc l rels), successors ext rc l rels \<noteq> [])"
  by (simp add: nextNodesLoop_eq toSlice_def)

lemma GetNextNodes_miss:
  assumes "relationCache rc \<lparr>inNodeId = f, relationType = l\<rparr> = None"
  shows "fst (GetNextNodes ext rc f l) =
           (let rels = (case nodeRoutes rc f of None \<Rightarrow> [] | Some rs \<Rightarrow> rs)
            in (toSlice (successors ext rc l rels), successors ext rc l rels \<noteq> []))"
  using assms
  by (cases "nodeRoutes rc f")
     (simp_all add: GetNextNodes_def GetNodeRoutes_def nextNodesLoop_start Let_def toSlice_def successors_def)

lemma addRelation_routes:
  "addRelation kind item rc = rc\<lparr>nodeRoutes := extendRoutes (nodeRoutes rc) [relationOf kind item]\<rparr>"
proof -
  let ?k = "\<lparr>Id = FromId item, Type = NODE\<rparr>"
  let ?m = "(nodeRoutes rc)(?k \<mapsto>
          (case nodeRoutes rc ?k of
             Some nodeRelations \<Rightarrow> nodeRelations @ [relationOf kind item]
           | None \<Rightarrow> [relationOf kind item]))"
  have h: "?m = extendRoutes (nodeRoutes rc) [relationOf kind item]"
    by (rule ext) (auto simp: extendRoutes_def relationOf_def split: option.splits)
  have "addRelation kind item rc = rc\<lparr>nodeRoutes := ?m\<rparr>"
    by (simp add: addRelation_def Let_def relationOf_def cong: option.case_cong)
  also have "\<dots> = rc\<lparr>nodeRoutes := extendRoutes (nodeRoutes rc) [relationOf kind item]\<rparr>"
    by (simp only: h)
  finally show ?thesis .
qed

lemma extendRoutes_append:
  "extendRoutes (extendRoutes m xs) ys = extendRoutes m (xs @ ys)"
  by (rule ext) (auto simp: extendRoutes_def split: option.splits)

lemma extendRoutes_Nil: "extendRoutes m [] = m"
  by (rule ext) (simp add: extendRoutes_def)

lemma loadRelations_routes:
  "loadRelations kind items rc =
     rc\<lparr>nodeRoutes := extendRoutes (nodeRoutes rc) (map (relationOf kind) items)\<rparr>"
proof (induction items arbitrary: rc)
  case Nil
  then show ?case by (simp add: extendRoutes_Nil)
next
  case (Cons item items)
  show ?case
    by (simp add: Cons.IH addRelation_routes extendRoutes_append)
qed

lemma InitRuleChainCtx_stages:
  assumes "InitRuleChainCtx ext cfg as (Some def) = Inr rc"
  shows "\<exists>rc4 rc7.
           loadNodes ext cfg 0 (Nodes (Metadata def)) (initialCtx ext cfg as def) = Inr rc4
         \<and> initRootRuleContext ext cfg
               (loadRelations CHAIN (RuleChainConnections (Metadata def))
                  (loadRelations NODE (Connections (Metadata def)) rc4)) = Inr rc7
         \<and> rc = rc7\<lparr>reloadAspects := fst (GetEngineAspects ext as),
                     destroyAspects := snd (GetEngineAspects ext as)\<rparr>"
  using assms
  by (auto simp: InitRuleChainCtx_def initialCtx_def Let_def split: sum.splits prod.splits)

lemma initialCtx_fields:
  "relationCache (initialCtx ext cfg as def) = Map.empty"
  "nodeRoutes (initialCtx ext cfg as def) = Map.empty"
  "isEmpty (initialCtx ext cfg as def) = False"
  "config (initialCtx ext cfg as def) = cfg"
  "ruleChainPool (initialCtx ext cfg as def) = None"
  "length (nodeIds (initialCtx ext cfg as def)) = length (Nodes (Metadata def))"
  "FirstNodeIndex (Metadata (SelfDefinition (initialCtx ext cfg as def))) = FirstNodeIndex (Metadata def)"
  "decryptSecrets (initialCtx ext cfg as def) =
     (case Configuration (BaseInfo def) of
        None \<Rightarrow> None
      | Some conf \<Rightarrow> Some (decryptSecret ext (ToStringMapString ext (map_of conf Secrets)) (SecretKey cfg)))"
  by (simp_all add: initialCtx_def newRuleChainCtx_def loadVarsAndSecrets_def Let_def split: option.splits)

lemma loadNode_fields:
  assumes "loadNode ext cfg i item rc = Inr rc'"
  shows "relationCache rc' = relationCache rc \<and> nodeRoutes rc' = nodeRoutes rc
       \<and> isEmpty rc' = isEmpty rc \<and> config rc' = config rc \<and> ruleChainPool rc' = ruleChainPool rc
       \<and> length (nodeIds rc') = length (nodeIds rc)
       \<and> FirstNodeIndex (Metadata (SelfDefinition rc')) = FirstNodeIndex (Metadata (SelfDefinition rc))
       \<and> decryptSecrets rc' = decryptSecrets rc"
  using assms
  by (auto simp: loadNode_def Let_def split: prod.splits option.splits)

lemma loadNodes_fields:
  assumes "loadNodes ext cfg i items rc = Inr rc'"
  shows "relationCache rc' = relationCache rc \<and> nodeRoutes rc' = nodeRoutes rc
       \<and> isEmpty rc' = isEmpty rc \<and> config rc' = config rc \<and> ruleChainPool rc' = ruleChainPool rc
       \<and> length (nodeIds rc') = length (nodeIds rc)
       \<and> FirstNodeIndex (Metadata (SelfDefinition rc')) = FirstNodeIndex (Metadata (SelfDefinition rc))
       \<and> decryptSecrets rc' = decryptSecrets rc"
  using assms
proof (induction items arbitrary: i rc)
  case Nil
  then show ?case by simp
next
  case (Cons item items)
  from Cons.prems obtain rc1 where
    1: "loadNode ext cfg i item rc = Inr rc1" and 2: "loadNodes ext cfg (Suc i) items rc1 = Inr rc'"
    by (auto split: sum.splits)
  from loadNode_fields [OF 1] Cons.IH [OF 2] show ?case by simp
qed

lemma initRootRuleContext_fields:
  assumes "initRootRuleContext ext cfg rc = Inr rc'"
  shows "relationCache rc' = relationCache rc \<and> nodeRoutes rc' = nodeRoutes rc
       \<and> nodes rc' = nodes rc \<and> nodeIds rc' = nodeIds rc \<and> SelfDefinition rc' = SelfDefinition rc
       \<and> ruleChainPool rc' = ruleChainPool rc \<and> decryptSecrets rc' = decryptSecrets rc"
  using assms
  by (auto simp: initRootRuleContext_def Let_def split: sum.splits prod.splits bool.splits)

lemma initRootRuleContext_empty:
  assumes "initRootRuleContext ext cfg rc = Inr rc'"
    and "int (length (nodeIds rc)) \<le> FirstNodeIndex (Metadata (SelfDefinition rc))"
  shows "isEmpty rc' \<and>
         rootRuleContext rc' = Some (NewRuleContext (config rc) (fst (InitRuleNodeCtx ext cfg emptyRuleNode)))"
  using assms
  by (auto simp: initRootRuleContext_def GetFirstNode_def GetNodeByIndex_def Let_def)

lemma built_fields:
  assumes "InitRuleChainCtx ext cfg as (Some def) = Inr rc"
  shows "relationCache rc = Map.empty"
    and "nodeRoutes rc = extendRoutes Map.empty
            (map (relationOf NODE) (Connections (Metadata def)) @
             map (relationOf CHAIN) (RuleChainConnections (Metadata def)))"
    and "ruleChainPool rc = None"
    and "length (nodeIds rc) = length (Nodes (Metadata def))"
    and "FirstNodeIndex (Metadata (SelfDefinition rc)) = FirstNodeIndex (Metadata def)"
    and "decryptSecrets rc =
     (case Configuration (BaseInfo def) of
        None \<Rightarrow> None
      | Some conf \<Rightarrow> Some (decryptSecret ext (ToStringMapString ext (map_of conf Secrets)) (SecretKey cfg)))"
proof -
  from InitRuleChainCtx_stages [OF assms] obtain rc4 rc7 where
    1: "loadNodes ext cfg 0 (Nodes (Metadata def)) (initialCtx ext cfg as def) = Inr rc4" and
    2: "initRootRuleContext ext cfg
               (loadRelations CHAIN (RuleChainConnections (Metadata def))
                  (loadRelations NODE (Connections (Metadata def)) rc4)) = Inr rc7" and
    3: "rc = rc7\<lparr>reloadAspects := fst (GetEngineAspects ext as),
                     destroyAspects := snd (GetEngineAspects ext as)\<rparr>"
    by blast
  note f1 = loadNodes_fields [OF 1] and f2 = initRootRuleContext_fields [OF 2]
  show "relationCache rc = Map.empty"
    using f1 f2 3 by (simp add: loadRelations_routes initialCtx_fields)
  show "nodeRoutes rc = extendRoutes Map.empty
            (map (relationOf NODE) (Connections (Metadata def)) @
             map (relationOf CHAIN) (RuleChainConnections (Metadata def)))"
    using f1 f2 3 by (simp add: loadRelations_routes initialCtx_fields extendRoutes_append)
  show "ruleChainPool rc = None"
    using f1 f2 3 by (simp add: loadRelations_routes initialCtx_fields)
  show "length (nodeIds rc) = length (Nodes (Metadata def))"
    using f1 f2 3 by (simp add: loadRelations_routes initialCtx_fields)
  show "FirstNodeIndex (Metadata (SelfDefinition rc)) = FirstNodeIndex (Metadata def)"
    using f1 f2 3 by (simp add: loadRelations_routes initialCtx_fields)
  show "decryptSecrets rc =
     (case Configuration (BaseInfo def) of
        None \<Rightarrow> None
      | Some conf \<Rightarrow> Some (decryptSecret ext (ToStringMapString ext (map_of conf Secrets)) (SecretKey cfg)))"
    using f1 f2 3 by (simp add: loadRelations_routes initialCtx_fields)
qed

lemma built_empty:
  assumes "InitRuleChainCtx ext cfg as (Some def) = Inr rc"
    and "int (length (Nodes (Metadata def))) \<le> FirstNodeIndex (Metadata def)"
  shows "isEmpty rc"
    and "rootRuleContext rc = Some (NewRuleContext cfg (fst (InitRuleNodeCtx ext cfg emptyRuleNode)))"
proof -
  from InitRuleChainCtx_stages [OF assms(1)] obtain rc4 rc7 where
    1: "loadNodes ext cfg 0 (Nodes (Metadata def)) (initialCtx ext cfg as def) = Inr rc4" and
    2: "initRootRuleContext ext cfg
               (loadRelations CHAIN (RuleChainConnections (Metadata def))
                  (loadRelations NODE (Connections (Metadata def)) rc4)) = Inr rc7" and
    3: "rc = rc7\<lparr>reloadAspects := fst (GetEngineAspects ext as),
                     destroyAspects := snd (GetEngineAspects ext as)\<rparr>"
    by blast
  note f1 = loadNodes_fields [OF 1]
  have "int (length (nodeIds (loadRelations CHAIN (RuleChainConnections (Metadata def))
                  (loadRelations NODE (Connections (Metadata def)) rc4))))
        \<le> FirstNodeIndex (Metadata (SelfDefinition (loadRelations CHAIN (RuleChainConnections (Metadata def))
                  (loadRelations NODE (Connections (Metadata def)) rc4))))"
    using f1 assms(2) by (simp add: loadRelations_routes initialCtx_fields)
  from initRootRuleContext_empty [OF 2 this] f1 3
  show "isEmpty rc"
    and "rootRuleContext rc = Some (NewRuleContext cfg (fst (InitRuleNodeCtx ext cfg emptyRuleNode)))"
    by (simp_all add: loadRelations_routes initialCtx_fields)
qed

lemma branchingCtx_built:
  "InitRuleChainCtx demoExternals demoConfig [1, 12, 3] (Some branchingDef) = Inr branchingCtx"
proof -
  have "\<not> isl (InitRuleChainCtx demoExternals demoConfig [1, 12, 3] (Some branchingDef))"
    by code_simp
  then show ?thesis unfolding branchingCtx_def by simp
qed

lemma emptyCtx_built:
  "InitRuleChainCtx demoExternals demoConfig [1, 12, 3] (Some emptyDef) = Inr emptyCtx"
proof -
  have "\<not> isl (InitRuleChainCtx demoExternals demoConfig [1, 12, 3] (Some emptyDef))"
    by code_simp
  then show ?thesis unfolding emptyCtx_def by simp
qed

subsection \<open>The registry\<close>

lemma Get_Register:
  "Get (Register b n p) name = (if name = n then Some p else Get b name)"
  by (cases "processors b") (simp_all add: Get_def Register_def)

lemma Get_delete_processor:
  "Get (delete_processor b n) name = (if name = n then None else Get b name)"
  by (cases "processors b") (simp_all add: Get_def delete_processor_def)

lemma Get_Unregister:
  "Get (Unregister b names) name = (if name \<in> set names then None else Get b name)"
  by (induction names arbitrary: b) (simp_all add: Get_delete_processor)

subsection \<open>Secrets, and a build under another cipher\<close>















subsection \<open>The variables merged by ParseVars\<close>

lemma fold_update_set:
  "fst ` set (fold (\<lambda>v m. AList.update v () m) vs m) = set vs \<union> fst ` set m"
  by (induction vs arbitrary: m) (auto simp: dom_update)

lemma fold_update_distinct:
  "distinct (map fst m) \<Longrightarrow> distinct (map fst (fold (\<lambda>v m. AList.update v () m) vs m))"
  by (induction vs arbitrary: m) (simp_all add: distinct_update)

lemma mergeField_set:
  "fst ` set (mergeField sf field m) = set (fieldVars sf (fst field) (snd field)) \<union> fst ` set m"
  by (simp add: mergeField_def fold_update_set)

lemma mergeField_distinct:
  "distinct (map fst m) \<Longrightarrow> distinct (map fst (mergeField sf field m))"
  by (simp add: mergeField_def fold_update_distinct)

lemma mergeNode_set:
  "fst ` set (mergeNode sf node m) =
     (\<Union>field \<in> set (NodeConfiguration node). set (fieldVars sf (fst field) (snd field))) \<union> fst ` set m"
proof -
  have "fst ` set (fold (mergeField sf) fields m) =
          (\<Union>field \<in> set fields. set (fieldVars sf (fst field) (snd field))) \<union> fst ` set m" for fields
    by (induction fields arbitrary: m) (auto simp: mergeField_set)
  then show ?thesis by (simp add: mergeNode_def)
qed

lemma mergeNode_distinct:
  "distinct (map fst m) \<Longrightarrow> distinct (map fst (mergeNode sf node m))"
proof -
  have "distinct (map fst m) \<Longrightarrow> distinct (map fst (fold (mergeField sf) fields m))" for fields
    by (induction fields arbitrary: m) (simp_all add: mergeField_distinct)
  then show "distinct (map fst m) \<Longrightarrow> distinct (map fst (mergeNode sf node m))"
    by (simp add: mergeNode_def)
qed

lemma mergeNodes_set:
  "fst ` set (fold (mergeNode sf) ns m) =
     (\<Union>node \<in> set ns. \<Union>field \<in> set (NodeConfiguration node). set (fieldVars sf (fst field) (snd field)))
     \<union> fst ` set m"
  by (induction ns arbitrary: m) (auto simp: mergeNode_set)

lemma mergeNodes_distinct:
  "distinct (map fst m) \<Longrightarrow> distinct (map fst (fold (mergeNode sf) ns m))"
  by (induction ns arbitrary: m) (simp_all add: mergeNode_distinct)

lemma fieldVars_mem:
  "v \<in> set (fieldVars sf fieldName fieldValue) \<longleftrightarrow>
     (\<exists>strV. fieldValue = StringValue strV \<and>
        v \<in> set (if Contains (stringsToLower sf fieldName) ''script''
                  then strParseVars sf strV else strParseVarsWithBraces sf strV))"
  by (cases fieldValue) (simp_all add: fieldVars_def)

subsection \<open>The relation cache\<close>

lemma GetNextNodes_hit:
  assumes "relationCache rc \<lparr>inNodeId = f, relationType = l\<rparr> = Some v"
  shows "GetNextNodes ext rc f l = ((v, v \<noteq> None), rc)"
  using assms by (simp add: GetNextNodes_def)

lemma GetNextNodes_miss_state:
  assumes "relationCache rc \<lparr>inNodeId = f, relationType = l\<rparr> = None"
  shows "snd (GetNextNodes ext rc f l) =
           rc\<lparr>relationCache := (relationCache rc)(\<lparr>inNodeId = f, relationType = l\<rparr> \<mapsto>
                  fst (fst (GetNextNodes ext rc f l)))\<rparr>"
  using assms by (simp add: GetNextNodes_def Let_def split: prod.splits)

lemma GetNextNodes_miss_result:
  assumes "relationCache rc \<lparr>inNodeId = f, relationType = l\<rparr> = None"
  shows "fst (fst (GetNextNodes ext rc f l)) \<noteq> Some []"
    and "snd (fst (GetNextNodes ext rc f l)) = (fst (fst (GetNextNodes ext rc f l)) \<noteq> None)"
  using GetNextNodes_miss [OF assms, of ext] by (simp_all add: Let_def toSlice_def)

lemma GetNextNodes_cached:
  "relationCache (snd (GetNextNodes ext rc f l)) \<lparr>inNodeId = f, relationType = l\<rparr>
     = Some (fst (fst (GetNextNodes ext rc f l)))"
proof (cases "relationCache rc \<lparr>inNodeId = f, relationType = l\<rparr>")
  case None
  then show ?thesis by (simp add: GetNextNodes_miss_state)
next
  case (Some v)
  then show ?thesis by (simp add: GetNextNodes_hit)
qed

lemma GetNextNodes_keeps:
  assumes "relationCache rc k = Some v"
  shows "relationCache (snd (GetNextNodes ext rc f l)) k = Some v"
proof (cases "relationCache rc \<lparr>inNodeId = f, relationType = l\<rparr>")
  case None
  with assms have "k \<noteq> \<lparr>inNodeId = f, relationType = l\<rparr>" by auto
  with assms None show ?thesis by (simp add: GetNextNodes_miss_state)
next
  case (Some w)
  with assms show ?thesis by (simp add: GetNextNodes_hit)
qed

lemma GetNextNodes_cacheSound:
  assumes "cacheSound rc"
  shows "cacheSound (snd (GetNextNodes ext rc f l))"
proof (cases "relationCache rc \<lparr>inNodeId = f, relationType = l\<rparr>")
  case None
  show ?thesis
    using assms GetNextNodes_miss_result(1) [OF None, of ext]
    by (simp add: cacheSound_def GetNextNodes_miss_state [OF None])
next
  case (Some w)
  with assms show ?thesis by (simp add: GetNextNodes_hit)
qed

lemma runCalls_keeps:
  assumes "relationCache rc k = Some v"
  shows "relationCache (runCalls ext rc calls) k = Some v"
  using assms
proof (induction calls arbitrary: rc)
  case Nil
  then show ?case by simp
next
  case (Cons c calls)
  show ?case
  proof (cases c)
    case (CallGetNextNodes f l)
    then show ?thesis using Cons.IH [OF GetNextNodes_keeps [OF Cons.prems]] by simp
  next
    case (CallSetRuleChainPool pool)
    have "relationCache (SetRuleChainPool rc pool) k = Some v"
      using Cons.prems by (simp add: SetRuleChainPool_def)
    then show ?thesis using Cons.IH CallSetRuleChainPool by simp
  qed
qed

lemma runCalls_cacheSound:
  assumes "cacheSound rc"
  shows "cacheSound (runCalls ext rc calls)"
  using assms
proof (induction calls arbitrary: rc)
  case Nil
  then show ?case by simp
next
  case (Cons c calls)
  show ?case
  proof (cases c)
    case (CallGetNextNodes f l)
    then show ?thesis using Cons.IH [OF GetNextNodes_cacheSound [OF Cons.prems]] by simp
  next
    case (CallSetRuleChainPool pool)
    have "cacheSound (SetRuleChainPool rc pool)"
      using Cons.prems by (simp add: SetRuleChainPool_def cacheSound_def)
    then show ?thesis using Cons.IH CallSetRuleChainPool by simp
  qed
qed

lemma GetNextNodes_flag:
  assumes "cacheSound rc"
  shows "snd (fst (GetNextNodes ext rc f l)) = (fst (fst (GetNextNodes ext rc f l)) \<noteq> None)
       \<and> fst (fst (GetNextNodes ext rc f l)) \<noteq> Some []"
proof (cases "relationCache rc \<lparr>inNodeId = f, relationType = l\<rparr>")
  case None
  show ?thesis
    using GetNextNodes_miss_result [OF None, of ext] by simp
next
  case (Some w)
  show ?thesis
    using Some assms by (auto simp: GetNextNodes_hit cacheSound_def)
qed

subsection \<open>The reload aspects\<close>

lemma reloadLoop_pass:
  assumes "\<forall>aop \<in> set aops. onReload aop rc rc err = None"
  shows "reloadLoop onReload rc err aops = (err, map (\<lambda>aop. OnReload aop rc rc err) aops)"
  using assms by (induction aops) simp_all

lemma reloadLoop_fail:
  assumes "\<forall>p \<in> set passed. onReload p rc rc err = None"
    and "onReload aop rc rc err = Some hookErr"
  shows "reloadLoop onReload rc err (passed @ aop # rest) =
           (Some hookErr, map (\<lambda>aop. OnReload aop rc rc err) (passed @ [aop]))"
  using assms by (induction passed) simp_all

lemma reloadLoop_events:
  "\<forall>ev \<in> set (snd (reloadLoop onReload rc err aops)). \<exists>aop \<in> set aops. ev = OnReload aop rc rc err"
  by (induction aops) (auto split: option.splits prod.splits)

lemma ReloadSelf_Inl:
  assumes "DecodeRuleChain (config rc) (aspects rc) def = Inl err"
  shows "ReloadSelf DecodeRuleChain onReload rc def =
           (fst (reloadLoop onReload rc (Some err) (reloadAspects rc)), rc,
            snd (reloadLoop onReload rc (Some err) (reloadAspects rc)))"
  using assms by (simp add: ReloadSelf_def case_prod_beta)

lemma ReloadSelf_Inr:
  assumes "DecodeRuleChain (config rc) (aspects rc) def = Inr ctx"
  shows "ReloadSelf DecodeRuleChain onReload rc def =
           (fst (reloadLoop onReload (Copy rc ctx) None (reloadAspects (Copy rc ctx))), Copy rc ctx,
            Destroy rc @ snd (reloadLoop onReload (Copy rc ctx) None (reloadAspects (Copy rc ctx))))"
  using assms by (simp add: ReloadSelf_def Let_def case_prod_beta)

subsection \<open>Lookups keep the cache consistent\<close>

lemma successors_frame:
  assumes "nodes rc' = nodes rc" and "ruleChainPool rc' = ruleChainPool rc"
  shows "successors ext rc' l rels = successors ext rc l rels"
proof -
  have p: "GetRuleChainPool ext rc' = GetRuleChainPool ext rc"
    using assms(2) by (simp add: GetRuleChainPool_def)
  have "GetNodeById ext rc' t = GetNodeById ext rc t" for t
    by (simp add: GetNodeById_def p assms(1))
  moreover have "unresolvable ext rc' t = unresolvable ext rc t" for t
    by (cases "Type t") (simp_all add: unresolvable_def p assms(1))
  ultimately show ?thesis by (simp add: successors_def)
qed

lemma GetNextNodes_frame:
  "nodes (snd (GetNextNodes ext rc f l)) = nodes rc
   \<and> ruleChainPool (snd (GetNextNodes ext rc f l)) = ruleChainPool rc
   \<and> nodeRoutes (snd (GetNextNodes ext rc f l)) = nodeRoutes rc"
proof (cases "relationCache rc \<lparr>inNodeId = f, relationType = l\<rparr>")
  case None
  then show ?thesis by (simp add: GetNextNodes_miss_state)
next
  case (Some v)
  then show ?thesis by (simp add: GetNextNodes_hit)
qed

lemma GetNextNodes_consistent_result:
  assumes "cacheConsistent ext rc"
  shows "fst (GetNextNodes ext rc f l) =
           (let rels = (case nodeRoutes rc f of None \<Rightarrow> [] | Some rs \<Rightarrow> rs)
            in (toSlice (successors ext rc l rels), successors ext rc l rels \<noteq> []))"
proof (cases "relationCache rc \<lparr>inNodeId = f, relationType = l\<rparr>")
  case None
  then show ?thesis by (rule GetNextNodes_miss)
next
  case (Some v)
  with assms have "v = toSlice (successors ext rc l (case nodeRoutes rc f of None \<Rightarrow> [] | Some rs \<Rightarrow> rs))"
    unfolding cacheConsistent_def by fastforce
  then show ?thesis
    using Some by (simp add: GetNextNodes_hit Let_def toSlice_def)
qed

lemma GetNextNodes_cacheConsistent:
  assumes "cacheConsistent ext rc"
  shows "cacheConsistent ext (snd (GetNextNodes ext rc f l))"
proof (cases "relationCache rc \<lparr>inNodeId = f, relationType = l\<rparr>")
  case (Some v)
  with assms show ?thesis by (simp add: GetNextNodes_hit)
next
  case None
  let ?rc' = "snd (GetNextNodes ext rc f l)"
  have fr: "nodes ?rc' = nodes rc" "ruleChainPool ?rc' = ruleChainPool rc" "nodeRoutes ?rc' = nodeRoutes rc"
    using GetNextNodes_frame [of ext rc f l] by simp_all
  have s: "successors ext ?rc' l' rels = successors ext rc l' rels" for l' rels
    by (rule successors_frame [OF fr(1,2)])
  have c: "relationCache ?rc' =
             (relationCache rc)(\<lparr>inNodeId = f, relationType = l\<rparr> \<mapsto> fst (fst (GetNextNodes ext rc f l)))"
    by (simp add: GetNextNodes_miss_state [OF None])
  have v: "fst (fst (GetNextNodes ext rc f l)) =
             toSlice (successors ext rc l (case nodeRoutes rc f of None \<Rightarrow> [] | Some rs \<Rightarrow> rs))"
    using GetNextNodes_miss [OF None, of ext] by (simp add: Let_def)
  show ?thesis
    unfolding cacheConsistent_def
  proof (intro allI impI)
    fix k w
    assume kw: "relationCache ?rc' k = Some w"
    show "w = toSlice (successors ext ?rc' (relationType k)
                 (case nodeRoutes ?rc' (inNodeId k) of None \<Rightarrow> [] | Some rs \<Rightarrow> rs))"
    proof (cases "k = \<lparr>inNodeId = f, relationType = l\<rparr>")
      case True
      with kw c v show ?thesis by (simp add: s fr(3))
    next
      case False
      with kw c have "relationCache rc k = Some w" by simp
      with assms show ?thesis unfolding cacheConsistent_def by (simp add: s fr(3))
    qed
  qed
qed

lemma lookups_cacheConsistent:
  assumes "cacheConsistent ext rc"
  shows "cacheConsistent ext (runCalls ext rc (map (\<lambda>(f, l). CallGetNextNodes f l) earlier))"
  using assms
proof (induction earlier arbitrary: rc)
  case Nil
  then show ?case by simp
next
  case (Cons p earlier)
  obtain f l where p: "p = (f, l)" by (cases p)
  show ?case
    using Cons.IH [OF GetNextNodes_cacheConsistent [OF Cons.prems, of f l]] p by simp
qed

lemma lookups_frame:
  "nodes (runCalls ext rc (map (\<lambda>(f, l). CallGetNextNodes f l) earlier)) = nodes rc
   \<and> ruleChainPool (runCalls ext rc (map (\<lambda>(f, l). CallGetNextNodes f l) earlier)) = ruleChainPool rc
   \<and> nodeRoutes (runCalls ext rc (map (\<lambda>(f, l). CallGetNextNodes f l) earlier)) = nodeRoutes rc"
proof (induction earlier arbitrary: rc)
  case Nil
  then show ?case by simp
next
  case (Cons p earlier)
  obtain f l where p: "p = (f, l)" by (cases p)
  show ?case
    using Cons.IH [of "snd (GetNextNodes ext rc f l)"] GetNextNodes_frame [of ext rc f l] p by simp
qed

section \<open>The claims\<close>

text \<open>
  Claim C1. Take a context that \<^verbatim>\<open>InitRuleChainCtx\<close> has built from a definition, set any
  pool on it or none, and look up any successors on it. A lookup of the successors of a
  node \<open>f\<close> for a label \<open>l\<close> then returns exactly the node contexts of the targets of the
  definition's relations from \<open>f\<close> with label \<open>l\<close> whose target can be resolved, one entry
  per relation and in definition order (the node-to-node connections in their order, then
  the sub-chain connections in theirs). So a resolvable target is in the list at the
  place its relation has among the resolvable relations of that label, and a relation
  defined twice gives two entries. The flag returned says whether the list has an entry.
\<close>

theorem GetNextNodes_definition_order:
  assumes "InitRuleChainCtx ext cfg as (Some def) = Inr rc0"
    and "rc = runCalls ext' (SetRuleChainPool rc0 pool) (map (\<lambda>(f, l). CallGetNextNodes f l) earlier)"
  shows "fst (GetNextNodes ext' rc f l) =
           (toSlice (successors ext' rc l (definedRelations def f)),
            successors ext' rc l (definedRelations def f) \<noteq> [])"
proof -
  note b = built_fields [OF assms(1)]
  let ?rc1 = "SetRuleChainPool rc0 pool"
  have "cacheConsistent ext' ?rc1"
    using b(1) by (simp add: cacheConsistent_def SetRuleChainPool_def)
  then have c: "cacheConsistent ext' rc"
    unfolding assms(2) by (rule lookups_cacheConsistent)
  have "nodeRoutes rc = nodeRoutes ?rc1"
    unfolding assms(2) using lookups_frame [of ext' ?rc1 earlier] by simp
  then have r: "(case nodeRoutes rc f of None \<Rightarrow> [] | Some rs \<Rightarrow> rs) = definedRelations def f"
    using b(2) by (simp add: SetRuleChainPool_def extendRoutes_def definedRelations_def)
  show ?thesis
    using GetNextNodes_consistent_result [OF c, of f l] r by (simp add: Let_def)
qed

text \<open>
  The chain \<open>branchingDef\<close> defines the relation from \<open>a\<close> to \<open>b\<close> twice, around one to the
  unknown node \<open>zz\<close>, and three sub-chain relations of which the pool resolves the first.
  The successors are the same after earlier lookups and without them.
\<close>

theorem GetNextNodes_definition_order_witness:
  "InitRuleChainCtx demoExternals demoConfig [1, 12, 3] (Some branchingDef) = Inr branchingCtx
   \<and> fst (GetNextNodes demoExternals warmCtx \<lparr>Id = ''a'', Type = NODE\<rparr> ''Success'')
       = (Some [NodeCtx ''b'', NodeCtx ''b'', NodeCtx ''root of sub1''], True)
   \<and> fst (GetNextNodes demoExternals (SetRuleChainPool branchingCtx (Some demoPool))
            \<lparr>Id = ''a'', Type = NODE\<rparr> ''Success'')
       = (Some [NodeCtx ''b'', NodeCtx ''b'', NodeCtx ''root of sub1''], True)"
proof -
  let ?a = "\<lparr>Id = ''a'', Type = NODE\<rparr>"
  let ?cold = "SetRuleChainPool branchingCtx (Some demoPool)"
  have cold: "?cold = runCalls demoExternals ?cold (map (\<lambda>(f, l). CallGetNextNodes f l) [])"
    by simp
  have s: "successors demoExternals warmCtx ''Success'' (definedRelations branchingDef ?a)
        = [NodeCtx ''b'', NodeCtx ''b'', NodeCtx ''root of sub1'']"
    by code_simp
  have s': "successors demoExternals ?cold ''Success'' (definedRelations branchingDef ?a)
        = [NodeCtx ''b'', NodeCtx ''b'', NodeCtx ''root of sub1'']"
    by code_simp
  show ?thesis
    using GetNextNodes_definition_order [OF branchingCtx_built warmCtx_def, of ?a "''Success''"]
      GetNextNodes_definition_order [OF branchingCtx_built cold, of ?a "''Success''"]
      branchingCtx_built s s'
    by (simp add: toSlice_def)
qed

text \<open>
  Claim C2. Take a context whose cache is empty (as after a build or a \<^verbatim>\<open>Copy\<close>), any
  calls on it that are not a reload, a lookup of the successors of \<open>f\<close> for \<open>l\<close>, any
  further such calls, and a second lookup of the same successors. The second lookup
  returns the list of the first and leaves the context as it is; its flag, which on this
  path says that the list is not \<^verbatim>\<open>nil\<close>, is the flag of the first lookup and says that
  the list has an element. The model has values and no addresses: the list returned is
  the list stored in the cache.
\<close>

theorem GetNextNodes_repeatable:
  assumes "relationCache rc0 = Map.empty"
    and "rc = runCalls extA rc0 before"
    and "GetNextNodes extB rc f l = ((list1, found1), rc1)"
    and "rc2 = runCalls extC rc1 between"
    and "GetNextNodes extD rc2 f l = ((list2, found2), rc3)"
  shows "list2 = list1 \<and> found2 = found1
       \<and> found2 = (list2 \<noteq> None) \<and> found2 = (0 < len list2) \<and> rc3 = rc2"
proof -
  have s0: "cacheSound rc0" using assms(1) by (simp add: cacheSound_def)
  have s: "cacheSound rc" using s0 assms(2) by (simp add: runCalls_cacheSound)
  have c1: "relationCache rc1 \<lparr>inNodeId = f, relationType = l\<rparr> = Some list1"
    using GetNextNodes_cached [of extB rc f l] assms(3) by simp
  have c2: "relationCache rc2 \<lparr>inNodeId = f, relationType = l\<rparr> = Some list1"
    using runCalls_keeps [OF c1] assms(4) by simp
  have r2: "list2 = list1" "found2 = (list1 \<noteq> None)" "rc3 = rc2"
    using GetNextNodes_hit [OF c2, of extD] assms(5) by simp_all
  have f1: "found1 = (list1 \<noteq> None)" "list1 \<noteq> Some []"
    using GetNextNodes_flag [OF s, of extB f l] assms(3) by simp_all
  have "(list1 \<noteq> None) = (0 < len list1)"
    using f1(2) by (cases list1) (simp_all add: len_def)
  with r2 f1 show ?thesis by simp
qed

text \<open>
  Between the two lookups a pool is set that would resolve one more successor: the second
  lookup still returns the two successors of the first.
\<close>

theorem GetNextNodes_repeatable_witness:
  "relationCache branchingCtx = Map.empty
   \<and> fst (GetNextNodes demoExternals branchingCtx \<lparr>Id = ''a'', Type = NODE\<rparr> ''Success'')
       = (Some [NodeCtx ''b'', NodeCtx ''b''], True)
   \<and> fst (GetNextNodes demoExternals
             (runCalls demoExternals
                (snd (GetNextNodes demoExternals branchingCtx \<lparr>Id = ''a'', Type = NODE\<rparr> ''Success''))
                laterCalls)
             \<lparr>Id = ''a'', Type = NODE\<rparr> ''Success'')
       = (Some [NodeCtx ''b'', NodeCtx ''b''], True)"
proof -
  let ?f = "\<lparr>Id = ''a'', Type = NODE\<rparr>"
  let ?first = "GetNextNodes demoExternals branchingCtx ?f ''Success''"
  let ?rc2 = "runCalls demoExternals (snd ?first) laterCalls"
  let ?second = "GetNextNodes demoExternals ?rc2 ?f ''Success''"
  have 1: "relationCache branchingCtx = Map.empty"
    by (rule built_fields(1) [OF branchingCtx_built])
  have 2: "branchingCtx = runCalls demoExternals branchingCtx []" by simp
  have 3: "?first = ((fst (fst ?first), snd (fst ?first)), snd ?first)" by simp
  have 5: "?second = ((fst (fst ?second), snd (fst ?second)), snd ?second)" by simp
  have v: "fst ?first = (Some [NodeCtx ''b'', NodeCtx ''b''], True)"
    by code_simp
  from GetNextNodes_repeatable [OF 1 2 3 refl 5] 1 v show ?thesis
    by (simp add: prod_eq_iff)
qed

text \<open>
  Claim C3. After \<^verbatim>\<open>Copy\<close> the context is to be the same as the new instance, the
  \<^verbatim>\<open>isEmpty\<close> flag included. \<^verbatim>\<open>Copy\<close> does not assign \<^verbatim>\<open>isEmpty\<close>: a context built
  from a chain with nodes, after \<^verbatim>\<open>Copy\<close> from a context built from the chain without
  nodes, still has \<^verbatim>\<open>isEmpty\<close> false, where the new instance has it true; and that is the
  context a successful \<^verbatim>\<open>ReloadSelf\<close> leaves.
\<close>

theorem Copy_leaves_isEmpty:
  "isEmpty (Copy rc newCtx) = isEmpty rc
   \<and> InitRuleChainCtx demoExternals demoConfig [1, 12, 3] (Some branchingDef) = Inr branchingCtx
   \<and> InitRuleChainCtx demoExternals demoConfig [1, 12, 3] (Some emptyDef) = Inr emptyCtx
   \<and> isEmpty emptyCtx = True
   \<and> isEmpty (Copy branchingCtx emptyCtx) = False
   \<and> Copy branchingCtx emptyCtx \<noteq> emptyCtx
   \<and> fst (snd (ReloadSelf demoDecode demoOnReload branchingCtx ''empty'')) = Copy branchingCtx emptyCtx"
proof -
  have 0: "isEmpty (Copy rc newCtx) = isEmpty rc"
    by (simp add: Copy_def)
  have 1: "isEmpty emptyCtx = True" "isEmpty (Copy branchingCtx emptyCtx) = False"
    by code_simp+
  then have 2: "Copy branchingCtx emptyCtx \<noteq> emptyCtx" by auto
  have "demoDecode (config branchingCtx) (aspects branchingCtx) ''empty'' = Inr emptyCtx"
    by (simp add: demoDecode_def)
  then have 3: "fst (snd (ReloadSelf demoDecode demoOnReload branchingCtx ''empty'')) = Copy branchingCtx emptyCtx"
    using ReloadSelf_Inr [of demoDecode branchingCtx "''empty''" emptyCtx demoOnReload] by simp
  from 0 1 2 3 branchingCtx_built emptyCtx_built show ?thesis by simp
qed

text \<open>
  Claim C4. A run of \<^verbatim>\<open>ReloadSelf\<close> on a context \<open>rc\<close> ends with the context \<open>rc'\<close>, which
  is \<open>rc\<close> itself when the parser answers an error and \<open>rc\<close> after \<^verbatim>\<open>Destroy\<close> and \<^verbatim>\<open>Copy\<close>
  when it answers a context. The events are those of \<^verbatim>\<open>Destroy\<close> (none when decoding
  failed) and then calls of reload aspects only, each with the arguments \<open>rc'\<close>, \<open>rc'\<close> and
  the decode error (\<^verbatim>\<open>nil\<close> after a success). When no reload aspect answers an error,
  every reload aspect is called, in order, and the result is the decode error, \<^verbatim>\<open>nil\<close>
  after a success. When one does, the aspects up to and including the first such are
  called, no later one is, and the result is its error.
\<close>

theorem ReloadSelf_hooks_and_result:
  assumes "ReloadSelf DecodeRuleChain onReload rc def = (res, rc', evs)"
  shows "\<exists>decodeErr destroyed hookEvs.
           (case DecodeRuleChain (config rc) (aspects rc) def of
              Inl err \<Rightarrow> decodeErr = Some err \<and> rc' = rc \<and> destroyed = []
            | Inr ctx \<Rightarrow> decodeErr = None \<and> rc' = Copy rc ctx \<and> destroyed = Destroy rc)
         \<and> evs = destroyed @ hookEvs
         \<and> (\<forall>ev \<in> set hookEvs. \<exists>aop \<in> set (reloadAspects rc'). ev = OnReload aop rc' rc' decodeErr)
         \<and> ((\<forall>aop \<in> set (reloadAspects rc'). onReload aop rc' rc' decodeErr = None) \<longrightarrow>
              hookEvs = map (\<lambda>aop. OnReload aop rc' rc' decodeErr) (reloadAspects rc') \<and> res = decodeErr)
         \<and> (\<forall>passed aop rest hookErr.
              reloadAspects rc' = passed @ aop # rest
              \<and> (\<forall>p \<in> set passed. onReload p rc' rc' decodeErr = None)
              \<and> onReload aop rc' rc' decodeErr = Some hookErr \<longrightarrow>
              hookEvs = map (\<lambda>aop. OnReload aop rc' rc' decodeErr) (passed @ [aop]) \<and> res = Some hookErr)"
proof -
  have main: "\<exists>hookEvs. evs = destroyed @ hookEvs
         \<and> (\<forall>ev \<in> set hookEvs. \<exists>aop \<in> set (reloadAspects rc'). ev = OnReload aop rc' rc' decodeErr)
         \<and> ((\<forall>aop \<in> set (reloadAspects rc'). onReload aop rc' rc' decodeErr = None) \<longrightarrow>
              hookEvs = map (\<lambda>aop. OnReload aop rc' rc' decodeErr) (reloadAspects rc') \<and> res = decodeErr)
         \<and> (\<forall>passed aop rest hookErr.
              reloadAspects rc' = passed @ aop # rest
              \<and> (\<forall>p \<in> set passed. onReload p rc' rc' decodeErr = None)
              \<and> onReload aop rc' rc' decodeErr = Some hookErr \<longrightarrow>
              hookEvs = map (\<lambda>aop. OnReload aop rc' rc' decodeErr) (passed @ [aop]) \<and> res = Some hookErr)"
    if r: "res = fst (reloadLoop onReload rc' decodeErr (reloadAspects rc'))"
      and e: "evs = destroyed @ snd (reloadLoop onReload rc' decodeErr (reloadAspects rc'))"
    for decodeErr destroyed
  proof -
    let ?loop = "reloadLoop onReload rc' decodeErr (reloadAspects rc')"
    have 1: "\<forall>ev \<in> set (snd ?loop). \<exists>aop \<in> set (reloadAspects rc'). ev = OnReload aop rc' rc' decodeErr"
      by (rule reloadLoop_events)
    have 2: "snd ?loop = map (\<lambda>aop. OnReload aop rc' rc' decodeErr) (reloadAspects rc') \<and> res = decodeErr"
      if "\<forall>aop \<in> set (reloadAspects rc'). onReload aop rc' rc' decodeErr = None"
      using reloadLoop_pass [of "reloadAspects rc'" onReload rc' decodeErr] that r by simp
    have 3: "snd ?loop = map (\<lambda>aop. OnReload aop rc' rc' decodeErr) (passed @ [aop]) \<and> res = Some hookErr"
      if "reloadAspects rc' = passed @ aop # rest"
        and "\<forall>p \<in> set passed. onReload p rc' rc' decodeErr = None"
        and "onReload aop rc' rc' decodeErr = Some hookErr"
      for passed aop rest hookErr
      using reloadLoop_fail [of passed onReload rc' decodeErr aop hookErr rest] that r by simp
    from e 1 2 3 show ?thesis by blast
  qed
  show ?thesis
  proof (cases "DecodeRuleChain (config rc) (aspects rc) def")
    case (Inl err)
    have "(fst (reloadLoop onReload rc (Some err) (reloadAspects rc)), rc,
             snd (reloadLoop onReload rc (Some err) (reloadAspects rc))) = (res, rc', evs)"
      by (rule trans [OF ReloadSelf_Inl [of DecodeRuleChain rc "def" err onReload, OF Inl, symmetric] assms])
    then have a: "rc' = rc" and b: "res = fst (reloadLoop onReload rc (Some err) (reloadAspects rc))"
      and c: "evs = snd (reloadLoop onReload rc (Some err) (reloadAspects rc))"
      by auto
    have "res = fst (reloadLoop onReload rc' (Some err) (reloadAspects rc'))"
      "evs = [] @ snd (reloadLoop onReload rc' (Some err) (reloadAspects rc'))"
      unfolding a using b c by simp_all
    from a main [OF this] Inl show ?thesis by auto
  next
    case (Inr ctx)
    have "(fst (reloadLoop onReload (Copy rc ctx) None (reloadAspects (Copy rc ctx))), Copy rc ctx,
             Destroy rc @ snd (reloadLoop onReload (Copy rc ctx) None (reloadAspects (Copy rc ctx))))
          = (res, rc', evs)"
      by (rule trans [OF ReloadSelf_Inr [of DecodeRuleChain rc "def" ctx onReload, OF Inr, symmetric] assms])
    then have a: "rc' = Copy rc ctx"
      and b: "res = fst (reloadLoop onReload (Copy rc ctx) None (reloadAspects (Copy rc ctx)))"
      and c: "evs = Destroy rc @ snd (reloadLoop onReload (Copy rc ctx) None (reloadAspects (Copy rc ctx)))"
      by auto
    have "res = fst (reloadLoop onReload rc' None (reloadAspects rc'))"
      "evs = Destroy rc @ snd (reloadLoop onReload rc' None (reloadAspects rc'))"
      unfolding a using b c by simp_all
    from a main [OF this] Inr show ?thesis by auto
  qed
qed

text \<open>
  On the bytes \<^verbatim>\<open>garbage\<close> decoding fails, the aspect \<open>1\<close> passes and the aspect \<open>3\<close>
  answers its error; on the bytes \<^verbatim>\<open>empty\<close> decoding succeeds and both aspects pass.
\<close>

theorem ReloadSelf_hooks_and_result_witness:
  "demoDecode (config branchingCtx) (aspects branchingCtx) ''garbage'' = Inl (Error ''decode'')
   \<and> reloadAspects branchingCtx = [1] @ 3 # []
   \<and> demoOnReload 1 branchingCtx branchingCtx (Some (Error ''decode'')) = None
   \<and> demoOnReload 3 branchingCtx branchingCtx (Some (Error ''decode'')) = Some (Error ''hook 3'')
   \<and> ReloadSelf demoDecode demoOnReload branchingCtx ''garbage'' =
        (Some (Error ''hook 3''), branchingCtx,
         [OnReload 1 branchingCtx branchingCtx (Some (Error ''decode'')),
          OnReload 3 branchingCtx branchingCtx (Some (Error ''decode''))])
   \<and> demoDecode (config branchingCtx) (aspects branchingCtx) ''empty'' = Inr emptyCtx
   \<and> reloadAspects (Copy branchingCtx emptyCtx) = [1, 3]
   \<and> ReloadSelf demoDecode demoOnReload branchingCtx ''empty'' =
        (None, Copy branchingCtx emptyCtx,
         [NodeDestroy (NodeCtx ''a''), NodeDestroy (NodeCtx ''b''), OnDestroy 12 branchingCtx,
          OnReload 1 (Copy branchingCtx emptyCtx) (Copy branchingCtx emptyCtx) None,
          OnReload 3 (Copy branchingCtx emptyCtx) (Copy branchingCtx emptyCtx) None])"
proof -
  have d1: "demoDecode (config branchingCtx) (aspects branchingCtx) ''garbage'' = Inl (Error ''decode'')"
    and d2: "demoDecode (config branchingCtx) (aspects branchingCtx) ''empty'' = Inr emptyCtx"
    by (simp_all add: demoDecode_def)
  have a1: "reloadAspects branchingCtx = [1] @ 3 # []"
    by code_simp
  have a2: "reloadAspects (Copy branchingCtx emptyCtx) = [1, 3]"
    by code_simp
  have h1: "demoOnReload 1 branchingCtx branchingCtx (Some (Error ''decode'')) = None"
    and h3: "demoOnReload 3 branchingCtx branchingCtx (Some (Error ''decode'')) = Some (Error ''hook 3'')"
    by (simp_all add: demoOnReload_def)
  have dn: "nodes branchingCtx = [(\<lparr>Id = ''a'', Type = NODE\<rparr>, NodeCtx ''a''), (\<lparr>Id = ''b'', Type = NODE\<rparr>, NodeCtx ''b'')]"
    and da: "destroyAspects branchingCtx = [12]"
    by code_simp+
  have dd: "Destroy branchingCtx =
      [NodeDestroy (NodeCtx ''a''), NodeDestroy (NodeCtx ''b''), OnDestroy 12 branchingCtx]"
    by (simp add: Destroy_def dn da)
  define R1 where "R1 = ReloadSelf demoDecode demoOnReload branchingCtx ''garbage''"
  define R2 where "R2 = ReloadSelf demoDecode demoOnReload branchingCtx ''empty''"
  have r1: "ReloadSelf demoDecode demoOnReload branchingCtx ''garbage'' = (fst R1, fst (snd R1), snd (snd R1))"
    and r2: "ReloadSelf demoDecode demoOnReload branchingCtx ''empty'' = (fst R2, fst (snd R2), snd (snd R2))"
    by (simp_all add: R1_def R2_def)
  have e1: "R1 = (Some (Error ''hook 3''), branchingCtx,
         [OnReload 1 branchingCtx branchingCtx (Some (Error ''decode'')),
          OnReload 3 branchingCtx branchingCtx (Some (Error ''decode''))])"
  proof -
    from ReloadSelf_hooks_and_result [OF r1]
    obtain decodeErr destroyed hookEvs where
      c: "case demoDecode (config branchingCtx) (aspects branchingCtx) ''garbage'' of
              Inl err \<Rightarrow> decodeErr = Some err \<and> fst (snd R1) = branchingCtx \<and> destroyed = []
            | Inr ctx \<Rightarrow> decodeErr = None \<and> fst (snd R1) = Copy branchingCtx ctx \<and> destroyed = Destroy branchingCtx"
      and ev: "snd (snd R1) = destroyed @ hookEvs"
      and f: "\<forall>passed aop rest hookErr.
              reloadAspects (fst (snd R1)) = passed @ aop # rest
              \<and> (\<forall>p \<in> set passed. demoOnReload p (fst (snd R1)) (fst (snd R1)) decodeErr = None)
              \<and> demoOnReload aop (fst (snd R1)) (fst (snd R1)) decodeErr = Some hookErr \<longrightarrow>
              hookEvs = map (\<lambda>aop. OnReload aop (fst (snd R1)) (fst (snd R1)) decodeErr) (passed @ [aop])
              \<and> fst R1 = Some hookErr"
      by blast
    from c d1 have s: "decodeErr = Some (Error ''decode'')" "fst (snd R1) = branchingCtx" "destroyed = []"
      by simp_all
    from f [rule_format, of "[1]" 3 "[]" "Error ''hook 3''"] s a1 h1 h3
    have "hookEvs = [OnReload 1 branchingCtx branchingCtx (Some (Error ''decode'')),
          OnReload 3 branchingCtx branchingCtx (Some (Error ''decode''))]"
      and "fst R1 = Some (Error ''hook 3'')"
      by simp_all
    with s ev show ?thesis by (simp add: prod_eq_iff)
  qed
  have e2: "R2 = (None, Copy branchingCtx emptyCtx,
         [NodeDestroy (NodeCtx ''a''), NodeDestroy (NodeCtx ''b''), OnDestroy 12 branchingCtx,
          OnReload 1 (Copy branchingCtx emptyCtx) (Copy branchingCtx emptyCtx) None,
          OnReload 3 (Copy branchingCtx emptyCtx) (Copy branchingCtx emptyCtx) None])"
  proof -
    from ReloadSelf_hooks_and_result [OF r2]
    obtain decodeErr destroyed hookEvs where
      c: "case demoDecode (config branchingCtx) (aspects branchingCtx) ''empty'' of
              Inl err \<Rightarrow> decodeErr = Some err \<and> fst (snd R2) = branchingCtx \<and> destroyed = []
            | Inr ctx \<Rightarrow> decodeErr = None \<and> fst (snd R2) = Copy branchingCtx ctx \<and> destroyed = Destroy branchingCtx"
      and ev: "snd (snd R2) = destroyed @ hookEvs"
      and f: "(\<forall>aop \<in> set (reloadAspects (fst (snd R2))). demoOnReload aop (fst (snd R2)) (fst (snd R2)) decodeErr = None) \<longrightarrow>
              hookEvs = map (\<lambda>aop. OnReload aop (fst (snd R2)) (fst (snd R2)) decodeErr) (reloadAspects (fst (snd R2)))
              \<and> fst R2 = decodeErr"
      by blast
    from c d2 have s: "decodeErr = None" "fst (snd R2) = Copy branchingCtx emptyCtx" "destroyed = Destroy branchingCtx"
      by simp_all
    have "\<forall>aop \<in> set (reloadAspects (fst (snd R2))). demoOnReload aop (fst (snd R2)) (fst (snd R2)) decodeErr = None"
      by (simp add: demoOnReload_def s(1))
    with f s a2
    have "hookEvs = [OnReload 1 (Copy branchingCtx emptyCtx) (Copy branchingCtx emptyCtx) None,
          OnReload 3 (Copy branchingCtx emptyCtx) (Copy branchingCtx emptyCtx) None]"
      and "fst R2 = None"
      by simp_all
    with s ev dd show ?thesis by (simp add: prod_eq_iff)
  qed
  from d1 d2 a1 a2 h1 h3 e1 e2 show ?thesis
    unfolding R1_def R2_def by simp
qed

text \<open>
  Claim C5, amended. In a built context whose definition has its first node index at or
  beyond the number of its nodes (every definition without nodes whose index is not
  negative is one), \<^verbatim>\<open>isEmpty\<close> is true, the root rule context is made from the node
  context that the builder answers for the empty node definition, and \<^verbatim>\<open>GetFirstNode\<close>
  returns the placeholder \<^verbatim>\<open>&RuleNodeCtx{}\<close>, which is not \<^verbatim>\<open>nil\<close>, with \<^verbatim>\<open>false\<close>.
\<close>

theorem empty_chain_first_node:
  assumes "InitRuleChainCtx ext cfg as (Some def) = Inr rc"
    and "int (length (Nodes (Metadata def))) \<le> FirstNodeIndex (Metadata def)"
  shows "isEmpty rc
       \<and> rootRuleContext rc = Some (NewRuleContext cfg (fst (InitRuleNodeCtx ext cfg emptyRuleNode)))
       \<and> GetFirstNode ext' rc = Inr (EmptyRuleNodeCtx, False)"
proof -
  note b = built_fields [OF assms(1)]
  have "GetFirstNode ext' rc = Inr (EmptyRuleNodeCtx, False)"
    using b(4,5) assms(2) by (simp add: GetFirstNode_def GetNodeByIndex_def)
  then show ?thesis using built_empty [OF assms] by simp
qed

theorem empty_chain_first_node_witness:
  "InitRuleChainCtx demoExternals demoConfig [1, 12, 3] (Some emptyDef) = Inr emptyCtx
   \<and> int (length (Nodes (Metadata emptyDef))) \<le> FirstNodeIndex (Metadata emptyDef)
   \<and> isEmpty emptyCtx
   \<and> rootRuleContext emptyCtx = Some (NewRuleContext demoConfig (NodeCtx []))
   \<and> GetFirstNode demoExternals emptyCtx = Inr (EmptyRuleNodeCtx, False)"
proof -
  have 2: "int (length (Nodes (Metadata emptyDef))) \<le> FirstNodeIndex (Metadata emptyDef)"
    by code_simp
  have 3: "fst (InitRuleNodeCtx demoExternals demoConfig (emptyRuleNode :: (string \<times> string) list RuleNode)) = NodeCtx []"
    by code_simp
  show ?thesis
    using empty_chain_first_node [OF emptyCtx_built 2, of demoExternals] emptyCtx_built 2 3 by simp
qed

text \<open>
  The claim as stated fails on the chain without nodes: the context is built and empty,
  and \<^verbatim>\<open>GetFirstNode\<close> answers \<^verbatim>\<open>false\<close>.
\<close>

theorem firstNode_not_found_counterexample:
  "InitRuleChainCtx demoExternals demoConfig [1, 12, 3] (Some emptyDef) = Inr emptyCtx
   \<and> Nodes (Metadata emptyDef) = []
   \<and> isEmpty emptyCtx
   \<and> GetFirstNode demoExternals emptyCtx = Inr (EmptyRuleNodeCtx, False)"
proof -
  have "Nodes (Metadata emptyDef) = []" "isEmpty emptyCtx"
    "GetFirstNode demoExternals emptyCtx = Inr (EmptyRuleNodeCtx, False)"
    by code_simp+
  then show ?thesis using emptyCtx_built by simp
qed

text \<open>
  Claim C6. \<^verbatim>\<open>GetNodeByIndex\<close> is to answer the placeholder and \<^verbatim>\<open>false\<close> for every index
  outside the node list, the negative ones included. The source does so at and beyond
  the length, but at the index \<open>-1\<close> it panics, in every context: it reads
  \<^verbatim>\<open>rc.nodeIds[-1]\<close>. A definition whose first node index is \<open>-1\<close> makes the build
  itself panic, through \<^verbatim>\<open>GetFirstNode\<close>.
\<close>

theorem GetNodeByIndex_negative_index:
  "GetNodeByIndex ext rc (- 1) = Inl IndexOutOfRange
   \<and> GetNodeByIndex ext rc (int (length (nodeIds rc)) + int k) = Inr (EmptyRuleNodeCtx, False)
   \<and> InitRuleChainCtx demoExternals demoConfig [] (Some (demoChain (- 1) [''a''] [] [])) = Inl IndexOutOfRange"
proof -
  let ?build = "InitRuleChainCtx demoExternals demoConfig [] (Some (demoChain (- 1) [''a''] [] []))"
  have "isl ?build" and "projl ?build = IndexOutOfRange"
    by code_simp+
  then have "?build = Inl IndexOutOfRange"
    by (cases ?build) simp_all
  then show ?thesis by (simp add: GetNodeByIndex_def)
qed



text \<open>
  Claim C8. When \<^verbatim>\<open>GetNextNodes\<close> resolves the successors of a node (the cache has no
  entry for the node and the label), a relation of the node whose target cannot be
  resolved (a \<open>NODE\<close> id that \<^verbatim>\<open>nodes\<close> does not hold, a \<open>CHAIN\<close> id that the pool does not
  hold or whose engine has a \<^verbatim>\<open>nil\<close> root chain context) leaves no trace in the result:
  the list and the flag are those of the other relations of the node. The call raises
  nothing: in the source, as in the model, \<^verbatim>\<open>GetNextNodes\<close> and \<^verbatim>\<open>GetNodeById\<close> have no
  failing branch, and their results carry no error.
\<close>

theorem GetNextNodes_omits_unresolvable:
  assumes "relationCache rc \<lparr>inNodeId = f, relationType = l\<rparr> = None"
    and "nodeRoutes rc f = Some (before @ r # after)"
    and "unresolvable ext rc (OutId r)"
  shows "fst (GetNextNodes ext rc f l) =
           (toSlice (map (\<lambda>r. fst (GetNodeById ext rc (OutId r)))
                      (filter (\<lambda>r. RelationType r = l \<and> \<not> unresolvable ext rc (OutId r)) (before @ after))),
            \<exists>r \<in> set (before @ after). RelationType r = l \<and> \<not> unresolvable ext rc (OutId r))"
  using GetNextNodes_miss [OF assms(1), of ext] assms(2,3)
  by (auto simp: Let_def successors_def filter_empty_conv)

text \<open>
  In \<open>danglingCtx\<close> the sub-chain \<open>sub2\<close> is in the pool with a \<^verbatim>\<open>nil\<close> root, \<open>sub3\<close> is not
  in the pool and \<open>zz\<close> is not a node.
\<close>

theorem GetNextNodes_omits_unresolvable_witness:
  "relationCache danglingCtx \<lparr>inNodeId = \<lparr>Id = ''a'', Type = NODE\<rparr>, relationType = ''Success''\<rparr> = None
   \<and> nodeRoutes danglingCtx \<lparr>Id = ''a'', Type = NODE\<rparr> =
       Some (map (relationOf NODE) (take 4 (Connections (Metadata branchingDef)))
             @ map (relationOf CHAIN) (take 1 (RuleChainConnections (Metadata branchingDef)))
             @ relationOf CHAIN \<lparr>FromId = ''a'', ToId = ''sub2'', ConnType = ''Success''\<rparr>
             # [relationOf CHAIN \<lparr>FromId = ''a'', ToId = ''sub3'', ConnType = ''Success''\<rparr>])
   \<and> unresolvable demoExternals danglingCtx \<lparr>Id = ''sub2'', Type = CHAIN\<rparr>
   \<and> unresolvable demoExternals danglingCtx \<lparr>Id = ''sub3'', Type = CHAIN\<rparr>
   \<and> unresolvable demoExternals danglingCtx \<lparr>Id = ''zz'', Type = NODE\<rparr>
   \<and> fst (GetNextNodes demoExternals danglingCtx \<lparr>Id = ''a'', Type = NODE\<rparr> ''Success'')
       = (Some [NodeCtx ''b'', NodeCtx ''b'', NodeCtx ''root of sub1''], True)"
proof -
  let ?before = "map (relationOf NODE) (take 4 (Connections (Metadata branchingDef)))
             @ map (relationOf CHAIN) (take 1 (RuleChainConnections (Metadata branchingDef)))"
  let ?r = "relationOf CHAIN \<lparr>FromId = ''a'', ToId = ''sub2'', ConnType = ''Success''\<rparr>"
  let ?after = "[relationOf CHAIN \<lparr>FromId = ''a'', ToId = ''sub3'', ConnType = ''Success''\<rparr>]"
  have 1: "relationCache danglingCtx \<lparr>inNodeId = \<lparr>Id = ''a'', Type = NODE\<rparr>, relationType = ''Success''\<rparr> = None"
    by code_simp
  have 2: "nodeRoutes danglingCtx \<lparr>Id = ''a'', Type = NODE\<rparr> = Some (?before @ ?r # ?after)"
    by code_simp
  have 3: "unresolvable demoExternals danglingCtx (OutId ?r)"
    by code_simp
  have 4: "unresolvable demoExternals danglingCtx \<lparr>Id = ''sub2'', Type = CHAIN\<rparr>"
          "unresolvable demoExternals danglingCtx \<lparr>Id = ''sub3'', Type = CHAIN\<rparr>"
          "unresolvable demoExternals danglingCtx \<lparr>Id = ''zz'', Type = NODE\<rparr>"
    by code_simp+
  have 5: "toSlice (map (\<lambda>r. fst (GetNodeById demoExternals danglingCtx (OutId r)))
                      (filter (\<lambda>r. RelationType r = ''Success'' \<and> \<not> unresolvable demoExternals danglingCtx (OutId r))
                         (?before @ ?after)))
           = Some [NodeCtx ''b'', NodeCtx ''b'', NodeCtx ''root of sub1'']"
    by code_simp
  have 6: "\<exists>r \<in> set (?before @ ?after). RelationType r = ''Success'' \<and> \<not> unresolvable demoExternals danglingCtx (OutId r)"
    by code_simp
  show ?thesis
    using GetNextNodes_omits_unresolvable [OF 1 2 3] 1 2 4 5 6 by simp
qed

text \<open>
  Claim C9. In the built-in processor registry, a lookup of a name right after it was
  registered finds the registered processor; a lookup of a name after a call of
  Unregister whose arguments include that name finds nothing; and registering a name that
  is already registered replaces the processor (the registration cannot fail: it returns
  no error), whatever the registry held before, the \<^verbatim>\<open>nil\<close> map included.
\<close>

theorem builtins_register_get_unregister:
  "Get (Register b name p) name = Some p
   \<and> Get (Unregister b (before @ name # after)) name = None
   \<and> Get (Register (Register b name p) name q) name = Some q"
  by (simp add: Get_Unregister Get_Register)

text \<open>
  Claim C10. For every chain definition \<^verbatim>\<open>ParseVars\<close> returns a list without duplicates
  whose elements are exactly the variable names found in the string-valued configuration
  fields of the nodes: a field whose name, in lower case, contains \<^verbatim>\<open>script\<close> is read by
  \<^verbatim>\<open>str.ParseVars\<close> (the \<^verbatim>\<open>vars.xx\<close> convention), every other field by
  \<^verbatim>\<open>str.ParseVarsWithBraces\<close> (the \<^verbatim>\<open>${vars.xx}\<close> convention); fields that are not strings
  give nothing. The two parsers and \<^verbatim>\<open>strings.ToLower\<close> are parameters.
\<close>

theorem ParseVars_distinct_and_exact:
  "distinct (ParseVars sf def)
   \<and> set (ParseVars sf def) =
       {v. \<exists>node \<in> set (Nodes (Metadata def)).
             \<exists>(fieldName, fieldValue) \<in> set (NodeConfiguration node).
               \<exists>strV. fieldValue = StringValue strV \<and>
                 v \<in> set (if Contains (stringsToLower sf fieldName) ''script''
                           then strParseVars sf strV
                           else strParseVarsWithBraces sf strV)}"
proof -
  have d: "distinct (ParseVars sf def)"
    using mergeNodes_distinct [of "[]" sf "Nodes (Metadata def)"] by (simp add: ParseVars_def)
  have "set (ParseVars sf def) =
          (\<Union>node \<in> set (Nodes (Metadata def)).
             \<Union>field \<in> set (NodeConfiguration node). set (fieldVars sf (fst field) (snd field)))"
    using mergeNodes_set [of sf "Nodes (Metadata def)" "[]"] by (simp add: ParseVars_def)
  also have "\<dots> = {v. \<exists>node \<in> set (Nodes (Metadata def)).
             \<exists>field \<in> set (NodeConfiguration node). v \<in> set (fieldVars sf (fst field) (snd field))}"
    by auto
  also have "\<dots> = {v. \<exists>node \<in> set (Nodes (Metadata def)).
             \<exists>(fieldName, fieldValue) \<in> set (NodeConfiguration node).
               \<exists>strV. fieldValue = StringValue strV \<and>
                 v \<in> set (if Contains (stringsToLower sf fieldName) ''script''
                           then strParseVars sf strV
                           else strParseVarsWithBraces sf strV)}"
    by (simp only: fieldVars_mem case_prod_unfold)
  finally show ?thesis using d by simp
qed

theorem ParseVars_distinct_and_exact_witness:
  "ParseVars demoStrFuns scriptedDef = [''x'', ''y'']
   \<and> set (ParseVars demoStrFuns scriptedDef) =
       {v. \<exists>node \<in> set (Nodes (Metadata scriptedDef)).
             \<exists>(fieldName, fieldValue) \<in> set (NodeConfiguration node).
               \<exists>strV. fieldValue = StringValue strV \<and>
                 v \<in> set (if Contains (asciiToLower fieldName) ''script''
                           then strParseVars demoStrFuns strV
                           else strParseVarsWithBraces demoStrFuns strV)}"
proof -
  have 1: "ParseVars demoStrFuns scriptedDef = [''x'', ''y'']"
    by code_simp
  have 2: "stringsToLower demoStrFuns = asciiToLower"
    by (simp add: demoStrFuns_def)
  show ?thesis
    using ParseVars_distinct_and_exact [of demoStrFuns scriptedDef] 1 unfolding 2 by simp
qed

end
